theory Spec2Isabelle
  imports Main
begin

unbundle bit_operations_syntax

section \<open>Enumerations of \<^verbatim>\<open>rpi/amherst_2005.py\<close>\<close>

text \<open>
  \<^verbatim>\<open>SwitchPosition\<close> and \<^verbatim>\<open>EventEdge\<close> are \<^verbatim>\<open>enum.IntEnum\<close> classes. A member is an
  integer (\<^verbatim>\<open>SwitchPosition.TURN == 0\<close>), has a name, and the class is indexed by name:
  \<^verbatim>\<open>SwitchPosition[value]\<close> looks \<^verbatim>\<open>value\<close> up among the member names and raises
  \<^verbatim>\<open>KeyError\<close> when it is not one of them. Iterating the class yields the members in
  the order of their definition. The members of \<^verbatim>\<open>EventEdge\<close> take the library's three
  edge constants as values; these are distinct, so none of the three is an alias.
\<close>

datatype SwitchPosition = TURN | STRAIGHT

fun SwitchPosition_value :: "SwitchPosition \<Rightarrow> int" where
  "SwitchPosition_value TURN = 0"
| "SwitchPosition_value STRAIGHT = 1"

fun SwitchPosition_name :: "SwitchPosition \<Rightarrow> string" where
  "SwitchPosition_name TURN = ''TURN''"
| "SwitchPosition_name STRAIGHT = ''STRAIGHT''"

definition SwitchPosition_members :: "SwitchPosition list" where
  "SwitchPosition_members = [TURN, STRAIGHT]"

datatype EventEdge = FALLING | RISING | BOTH

fun EventEdge_name :: "EventEdge \<Rightarrow> string" where
  "EventEdge_name FALLING = ''FALLING''"
| "EventEdge_name RISING = ''RISING''"
| "EventEdge_name BOTH = ''BOTH''"

definition EventEdge_members :: "EventEdge list" where
  "EventEdge_members = [FALLING, RISING, BOTH]"

text \<open>
  A scalar of the YAML document, as \<^verbatim>\<open>yaml.safe_load\<close> hands it to the validators
  (a float behaves as an integer does). All of them are hashable, so indexing an
  enumeration by one of them either finds a member or raises \<^verbatim>\<open>KeyError\<close>. Sequences
  and mappings are not tokens and are left out.
\<close>

datatype token = TStr string | TInt int | TBool bool | TNull

fun SwitchPosition_getitem :: "token \<Rightarrow> SwitchPosition option" where
  "SwitchPosition_getitem (TStr s) = find (\<lambda>p. SwitchPosition_name p = s) SwitchPosition_members"
| "SwitchPosition_getitem _ = None"

fun EventEdge_getitem :: "token \<Rightarrow> EventEdge option" where
  "EventEdge_getitem (TStr s) = find (\<lambda>v. EventEdge_name v = s) EventEdge_members"
| "EventEdge_getitem _ = None"

section \<open>Exceptions\<close>

text \<open>
  The two validators build their message with an f-string of four parts: a literal, the
  \<^verbatim>\<open>KeyError\<close> (which prints the key that was not found), a literal, and the list of the
  member names. The message is kept as these parts.
\<close>

datatype msg_part = Lit string | Key token | Names "string list"

text \<open>
  pydantic reports one line per offending field, in the order of the fields of the
  model: a required field that is absent (\<^verbatim>\<open>missing\<close>), or the \<^verbatim>\<open>ValueError\<close> raised
  by a field validator (\<^verbatim>\<open>value_error\<close>).
\<close>

datatype line_error = Missing | Value_error "msg_part list"

text \<open>
  The exceptions the program can meet. The message of an \<^verbatim>\<open>OverflowError\<close> differs
  between versions of Python and is left out.
\<close>

datatype exn =
    ValueError string
  | RuntimeError string
  | TypeError string
  | OSError string
  | OverflowError
  | ValidationError "(string \<times> line_error) list"

section \<open>\<^verbatim>\<open>L298NSwitchSettings\<close>\<close>

record L298NSwitchSettings =
  initial_state :: SwitchPosition
  debounce_ms :: int
  event_edge :: EventEdge
  strobe_ms :: int
  name :: string
  pin_enable :: int
  pin_turn :: int
  pin_straight :: int
  pin_button :: int

text \<open>
  One entry of the configuration file: a mapping in which each of the nine keys is
  present or absent. The values of the two enumeration fields are tokens, validated by
  the model's own \<^verbatim>\<open>before\<close> validators below. The values of the integer and string
  fields are taken as pydantic has read them (an \<^verbatim>\<open>int\<close>, a \<^verbatim>\<open>str\<close>); pydantic's
  conversion of scalars is not part of this program.
\<close>

record switch_cfg =
  cfg_initial_state :: "token option"
  cfg_debounce_ms :: "int option"
  cfg_event_edge :: "token option"
  cfg_strobe_ms :: "int option"
  cfg_name :: "string option"
  cfg_pin_enable :: "int option"
  cfg_pin_turn :: "int option"
  cfg_pin_straight :: "int option"
  cfg_pin_button :: "int option"

definition validate_switch_position :: "token \<Rightarrow> line_error + SwitchPosition" where
  "validate_switch_position v =
     (case SwitchPosition_getitem v of
        Some p \<Rightarrow> Inr p
      | None \<Rightarrow> Inl (Value_error
          [Lit ''Error validating switch position '', Key v,
           Lit ''. Valid switch positions are: '',
           Names (map SwitchPosition_name SwitchPosition_members)]))"

definition validate_event_edge :: "token \<Rightarrow> line_error + EventEdge" where
  "validate_event_edge v =
     (case EventEdge_getitem v of
        Some e \<Rightarrow> Inr e
      | None \<Rightarrow> Inl (Value_error
          [Lit ''Error validating event edge '', Key v,
           Lit ''. Valid event edges are: '',
           Names (map EventEdge_name EventEdge_members)]))"

text \<open>
  A field with a default takes it when the key is absent (the validator does not run on
  the default); a field without a default is required.
\<close>

definition with_default :: "'a \<Rightarrow> ('b \<Rightarrow> line_error + 'a) \<Rightarrow> 'b option \<Rightarrow> line_error + 'a" where
  "with_default d validator x = (case x of None \<Rightarrow> Inr d | Some v \<Rightarrow> validator v)"

definition required :: "'a option \<Rightarrow> line_error + 'a" where
  "required x = (case x of None \<Rightarrow> Inl Missing | Some v \<Rightarrow> Inr v)"

definition line_errors :: "string \<Rightarrow> line_error + 'a \<Rightarrow> (string \<times> line_error) list" where
  "line_errors field r = (case r of Inl e \<Rightarrow> [(field, e)] | Inr _ \<Rightarrow> [])"

definition field_initial_state :: "switch_cfg \<Rightarrow> line_error + SwitchPosition" where
  "field_initial_state r = with_default TURN validate_switch_position (cfg_initial_state r)"

definition field_debounce_ms :: "switch_cfg \<Rightarrow> line_error + int" where
  "field_debounce_ms r = with_default 200 Inr (cfg_debounce_ms r)"

definition field_event_edge :: "switch_cfg \<Rightarrow> line_error + EventEdge" where
  "field_event_edge r = with_default RISING validate_event_edge (cfg_event_edge r)"

definition field_strobe_ms :: "switch_cfg \<Rightarrow> line_error + int" where
  "field_strobe_ms r = with_default 500 Inr (cfg_strobe_ms r)"

definition validation_errors :: "switch_cfg \<Rightarrow> (string \<times> line_error) list" where
  "validation_errors r =
     line_errors ''initial_state'' (field_initial_state r)
     @ line_errors ''debounce_ms'' (field_debounce_ms r)
     @ line_errors ''event_edge'' (field_event_edge r)
     @ line_errors ''strobe_ms'' (field_strobe_ms r)
     @ line_errors ''name'' (required (cfg_name r))
     @ line_errors ''pin_enable'' (required (cfg_pin_enable r))
     @ line_errors ''pin_turn'' (required (cfg_pin_turn r))
     @ line_errors ''pin_straight'' (required (cfg_pin_straight r))
     @ line_errors ''pin_button'' (required (cfg_pin_button r))"

definition model_validate :: "switch_cfg \<Rightarrow> exn + L298NSwitchSettings" where
  "model_validate r =
     (case (field_initial_state r, field_debounce_ms r, field_event_edge r, field_strobe_ms r,
            required (cfg_name r), required (cfg_pin_enable r), required (cfg_pin_turn r),
            required (cfg_pin_straight r), required (cfg_pin_button r)) of
        (Inr s, Inr d, Inr e, Inr t, Inr n, Inr pe, Inr pt, Inr ps, Inr pb) \<Rightarrow>
          Inr \<lparr>initial_state = s, debounce_ms = d, event_edge = e, strobe_ms = t,
               name = n, pin_enable = pe, pin_turn = pt, pin_straight = ps,
               pin_button = pb\<rparr>
      | _ \<Rightarrow> Inl (ValidationError (validation_errors r)))"

section \<open>The GPIO library, the clock and the logger\<close>

text \<open>
  The program drives the pins through \<^verbatim>\<open>RPi.GPIO\<close> in BCM numbering, sleeps with
  \<^verbatim>\<open>time.sleep\<close> and logs with \<^verbatim>\<open>logger.debug\<close>. None of the three is code of this
  program; what the program relies on is written out here. The world holds, for every
  channel, the direction given by the last \<^verbatim>\<open>GPIO.setup\<close>, the level of the last
  \<^verbatim>\<open>GPIO.output\<close>, and the edge detection added by \<^verbatim>\<open>GPIO.add_event_detect\<close> (edge and
  bounce time), and the history of every effect, oldest first. It also holds what the
  platform's clock does with a long sleep: the longest length it takes, in milliseconds,
  and the exception it raises beyond that. That length depends on the platform and on
  the time that has passed, so it is given for every history.
\<close>

datatype direction = GPIO_IN | GPIO_OUT

datatype effect =
    Setup int direction
  | Output int bool
  | Add_event_detect int EventEdge int
  | Remove_event_detect int
  | Sleep_ms int
  | Log_debug string int

record world =
  modes :: "int \<rightharpoonup> direction"
  levels :: "int \<rightharpoonup> bool"
  events :: "int \<rightharpoonup> EventEdge \<times> int"
  trace :: "effect list"
  sleep_limit_ms :: "effect list \<Rightarrow> int"
  sleep_refusal :: exn

text \<open>
  A statement runs on a state and leaves a state; when it raises, the exception comes
  with the state reached at that point, since what was done before stays done.
\<close>

type_synonym 's prog = "'s \<Rightarrow> 's \<times> exn option"

fun run :: "'s prog list \<Rightarrow> 's prog" where
  "run [] s = (s, None)"
| "run (f # fs) s = (case f s of (s', None) \<Rightarrow> run fs s' | (s', Some e) \<Rightarrow> (s', Some e))"

definition emit :: "effect \<Rightarrow> world \<Rightarrow> world" where
  "emit x w = w\<lparr>trace := trace w @ [x]\<rparr>"

definition c_int :: "int \<Rightarrow> bool" where
  \<comment> \<open>the library reads a channel and a bounce time as C integers\<close>
  "c_int n \<longleftrightarrow> - (2 ^ 31) \<le> n \<and> n < 2 ^ 31"

definition valid_channel :: "int \<Rightarrow> bool" where
  \<comment> \<open>BCM numbering accepts the channels 0 to 53\<close>
  "valid_channel ch \<longleftrightarrow> 0 \<le> ch \<and> ch \<le> 53"

definition channel_error :: "int \<Rightarrow> exn option" where
  "channel_error ch =
     (if \<not> c_int ch then Some OverflowError
      else if \<not> valid_channel ch then Some (ValueError ''The channel sent is invalid on a Raspberry Pi'')
      else None)"

text \<open>
  \<^verbatim>\<open>GPIO.setup\<close> gives the channel its direction (the pull-up of an input is left out),
  \<^verbatim>\<open>GPIO.output\<close> needs an output, \<^verbatim>\<open>GPIO.add_event_detect\<close> needs an input with no edge
  detection yet and a positive bounce time, \<^verbatim>\<open>GPIO.remove_event_detect\<close> does nothing
  when there is none.
\<close>

definition GPIO_setup :: "int \<Rightarrow> direction \<Rightarrow> world prog" where
  "GPIO_setup ch d w =
     (case channel_error ch of
        Some e \<Rightarrow> (w, Some e)
      | None \<Rightarrow> (emit (Setup ch d) (w\<lparr>modes := (modes w)(ch \<mapsto> d)\<rparr>), None))"

definition GPIO_output :: "int \<Rightarrow> bool \<Rightarrow> world prog" where
  "GPIO_output ch v w =
     (case channel_error ch of
        Some e \<Rightarrow> (w, Some e)
      | None \<Rightarrow>
          if modes w ch \<noteq> Some GPIO_OUT then
            (w, Some (RuntimeError ''The GPIO channel has not been set up as an OUTPUT''))
          else (emit (Output ch v) (w\<lparr>levels := (levels w)(ch \<mapsto> v)\<rparr>), None))"

definition bouncetime_error :: "int \<Rightarrow> exn option" where
  \<comment> \<open>\<^verbatim>\<open>-666\<close> is the library's own value for no bounce time\<close>
  "bouncetime_error bouncetime =
     (if \<not> c_int bouncetime then Some OverflowError
      else if bouncetime \<le> 0 \<and> bouncetime \<noteq> - 666 then
        Some (ValueError ''Bouncetime must be greater than 0'')
      else None)"

definition GPIO_add_event_detect :: "int \<Rightarrow> EventEdge \<Rightarrow> int \<Rightarrow> world prog" where
  "GPIO_add_event_detect ch edge bouncetime w =
     (if \<not> c_int ch \<or> \<not> c_int bouncetime then (w, Some OverflowError)
      else if \<not> valid_channel ch then
        (w, Some (ValueError ''The channel sent is invalid on a Raspberry Pi''))
      else if modes w ch \<noteq> Some GPIO_IN then
        (w, Some (RuntimeError ''You must setup() the GPIO channel as an input first''))
      else if bouncetime \<le> 0 \<and> bouncetime \<noteq> - 666 then
        (w, Some (ValueError ''Bouncetime must be greater than 0''))
      else if events w ch \<noteq> None then
        (w, Some (RuntimeError ''Conflicting edge detection already enabled for this GPIO channel''))
      else (emit (Add_event_detect ch edge bouncetime)
              (w\<lparr>events := (events w)(ch \<mapsto> (edge, bouncetime))\<rparr>), None))"

definition GPIO_remove_event_detect :: "int \<Rightarrow> world prog" where
  "GPIO_remove_event_detect ch w =
     (case channel_error ch of
        Some e \<Rightarrow> (w, Some e)
      | None \<Rightarrow> (emit (Remove_event_detect ch) (w\<lparr>events := (events w)(ch := None)\<rparr>), None))"

text \<open>
  \<^verbatim>\<open>time.sleep(ms / 1000)\<close>, with the length kept in milliseconds. Python keeps a
  length as a 64-bit count of nanoseconds and raises \<^verbatim>\<open>OverflowError\<close> for one that does
  not fit (the division itself overflows only far beyond that); a negative length is a
  \<^verbatim>\<open>ValueError\<close>; a length beyond the limit that the platform's clock has at that
  moment is refused with the platform's exception.
\<close>

definition sleep_error :: "int \<Rightarrow> world \<Rightarrow> exn option" where
  "sleep_error ms w =
     (if 2 ^ 63 \<le> \<bar>ms\<bar> * 10 ^ 6 then Some OverflowError
      else if ms < 0 then Some (ValueError ''sleep length must be non-negative'')
      else if sleep_limit_ms w (trace w) < ms then Some (sleep_refusal w)
      else None)"

definition time_sleep_ms :: "int \<Rightarrow> world prog" where
  "time_sleep_ms ms w =
     (case sleep_error ms w of
        Some e \<Rightarrow> (w, Some e)
      | None \<Rightarrow> (emit (Sleep_ms ms) w, None))"

definition logger_debug :: "string \<Rightarrow> int \<Rightarrow> world \<Rightarrow> world" where
  \<comment> \<open>the message \<^verbatim>\<open>f'{name} -> {str(state)}'\<close>, kept as its two values\<close>
  "logger_debug n v w = emit (Log_debug n v) w"

section \<open>\<^verbatim>\<open>L298NSwitch\<close>\<close>

text \<open>
  The object holds its configuration and \<^verbatim>\<open>__state\<close>, which is \<^verbatim>\<open>None\<close> until the setter
  has run. The state is then the member \<^verbatim>\<open>initial_state\<close> and, after
  \<^verbatim>\<open>self.state ^= 1\<close>, a plain integer; a member being its integer value, the state is
  kept as that integer. Every method acts on the object and on the world.
\<close>

record L298NSwitch =
  config :: L298NSwitchSettings
  state :: "int option"

type_synonym switch_prog = "(L298NSwitch \<times> world) prog"

definition on_world :: "(L298NSwitch \<Rightarrow> world prog) \<Rightarrow> switch_prog" where
  "on_world f = (\<lambda>(sw, w). case f sw w of (w', r) \<Rightarrow> ((sw, w'), r))"

definition state_setter :: "int \<Rightarrow> switch_prog" where
  "state_setter v = (\<lambda>(sw, w).
     ((sw\<lparr>state := Some v\<rparr>, logger_debug (name (config sw)) v w), None))"

text \<open>
  \<^verbatim>\<open>self.state ^= 1\<close> reads the state, computes and assigns through the setter; on
  \<^verbatim>\<open>None\<close> the operator raises.
\<close>

definition state_xor_1 :: switch_prog where
  "state_xor_1 = (\<lambda>(sw, w).
     case state sw of
       None \<Rightarrow> ((sw, w), Some (TypeError ''unsupported operand type(s) for ^=''))
     | Some v \<Rightarrow> state_setter (v XOR 1) (sw, w))"

text \<open>
  \<^verbatim>\<open>not self.state\<close> is true for 0 and for \<^verbatim>\<open>None\<close>; \<^verbatim>\<open>GPIO.output\<close> drives high for 1
  and low for 0, and refuses \<^verbatim>\<open>None\<close> before it looks at the channel.
\<close>

definition set_direction_pins :: switch_prog where
  "set_direction_pins = run
     [on_world (\<lambda>sw. GPIO_output (pin_turn (config sw))
                  (case state sw of None \<Rightarrow> True | Some v \<Rightarrow> v = 0)),
      (\<lambda>(sw, w). case state sw of
         None \<Rightarrow> ((sw, w), Some (TypeError
           ''Value must be an integer/boolean or a list/tuple of integers/booleans''))
       | Some v \<Rightarrow> on_world (\<lambda>sw. GPIO_output (pin_straight (config sw)) (v \<noteq> 0)) (sw, w))]"

definition enable_switch :: switch_prog where
  "enable_switch = on_world (\<lambda>sw. GPIO_output (pin_enable (config sw)) True)"

definition disable_switch :: switch_prog where
  "disable_switch = on_world (\<lambda>sw. GPIO_output (pin_enable (config sw)) False)"

definition strobe :: switch_prog where
  "strobe = on_world (\<lambda>sw. time_sleep_ms (strobe_ms (config sw)))"

definition init_pins :: switch_prog where
  "init_pins = run
     [on_world (\<lambda>sw. GPIO_setup (pin_button (config sw)) GPIO_IN),
      on_world (\<lambda>sw. GPIO_setup (pin_enable (config sw)) GPIO_OUT),
      on_world (\<lambda>sw. GPIO_setup (pin_straight (config sw)) GPIO_OUT),
      on_world (\<lambda>sw. GPIO_setup (pin_turn (config sw)) GPIO_OUT),
      disable_switch,
      set_direction_pins]"

definition enable_button_interrupt :: switch_prog where
  \<comment> \<open>the edge is the constant \<^verbatim>\<open>GPIO.RISING\<close>; the callback is \<^verbatim>\<open>self.__toggle\<close>\<close>
  "enable_button_interrupt =
     on_world (\<lambda>sw. GPIO_add_event_detect (pin_button (config sw)) RISING (debounce_ms (config sw)))"

definition disable_button_interrupt :: switch_prog where
  "disable_button_interrupt = on_world (\<lambda>sw. GPIO_remove_event_detect (pin_button (config sw)))"

definition toggle_steps :: "switch_prog list" where
  "toggle_steps =
     [disable_button_interrupt,
      state_xor_1,
      enable_switch,
      set_direction_pins,
      strobe,
      disable_switch,
      enable_button_interrupt]"

definition toggle :: switch_prog where
  "toggle = run toggle_steps"

text \<open>
  \<^verbatim>\<open>__init__\<close>: the object starts with \<^verbatim>\<open>__state = None\<close> and its configuration; the
  initial state is assigned through the setter, then the pins are set up and the
  interrupt is armed.
\<close>

definition L298NSwitch_init :: "L298NSwitchSettings \<Rightarrow> world \<Rightarrow> (L298NSwitch \<times> world) \<times> exn option" where
  "L298NSwitch_init cfg w =
     run [state_setter (SwitchPosition_value (initial_state cfg)),
          init_pins,
          enable_button_interrupt]
       (\<lparr>config = cfg, state = None\<rparr>, w)"

text \<open>
  An edge on the button pin. The library calls the callback when edge detection is
  added on the channel for an edge of that kind, and does nothing otherwise. The edge
  is one that the bounce time lets through. An exception of the callback comes back
  with the state it left; the library prints it and goes on.
\<close>

datatype signal = Rise | Fall

fun detects :: "EventEdge \<Rightarrow> signal \<Rightarrow> bool" where
  "detects BOTH _ = True"
| "detects RISING s = (s = Rise)"
| "detects FALLING s = (s = Fall)"

definition armed :: "signal \<Rightarrow> L298NSwitch \<times> world \<Rightarrow> bool" where
  "armed sig = (\<lambda>(sw, w).
     case events w (pin_button (config sw)) of
       None \<Rightarrow> False
     | Some (edge, bouncetime) \<Rightarrow> detects edge sig)"

definition button_edge :: "signal \<Rightarrow> switch_prog" where
  "button_edge sig s = (if armed sig s then toggle s else (s, None))"

section \<open>The main program\<close>

text \<open>
  The loop over the entries of the configuration file: validate, construct, append. An
  exception of either step ends the program; the switches constructed so far stay as
  they are. The \<^verbatim>\<open>print\<close> of the entry is left out.
\<close>

fun main_loop :: "switch_cfg list \<Rightarrow> (L298NSwitch list \<times> world) prog" where
  "main_loop [] s = (s, None)"
| "main_loop (switch_cfg # rest) (switches, w) =
     (case model_validate switch_cfg of
        Inl e \<Rightarrow> ((switches, w), Some e)
      | Inr cfg \<Rightarrow>
          (case L298NSwitch_init cfg w of
             ((switch, w'), Some e) \<Rightarrow> ((switches, w'), Some e)
           | ((switch, w'), None) \<Rightarrow> main_loop rest (switches @ [switch], w')))"

text \<open>
  The world when the program starts, on a machine that has just started: no channel
  set up, nothing done, and a clock that at any time takes every length Python can
  hand it, so that its refusal, an \<^verbatim>\<open>OSError\<close>, is never reached.
\<close>

definition boot :: world where
  "boot = \<lparr>modes = Map.empty, levels = Map.empty, events = Map.empty, trace = [],
            sleep_limit_ms = (\<lambda>history. 9223372036854),
            sleep_refusal = OSError ''[Errno 22] Invalid argument''\<rparr>"

section \<open>Configurations and states the properties are about\<close>

text \<open>
  A valid configuration, after the data model: four distinct pins, each a channel of
  the board.
\<close>

definition valid_config :: "L298NSwitchSettings \<Rightarrow> bool" where
  "valid_config cfg \<longleftrightarrow>
     distinct [pin_enable cfg, pin_turn cfg, pin_straight cfg, pin_button cfg]
     \<and> list_all valid_channel [pin_enable cfg, pin_turn cfg, pin_straight cfg, pin_button cfg]"

text \<open>
  The pins of a switch are set up as its constructor leaves them.
\<close>

definition wired :: "L298NSwitch \<times> world \<Rightarrow> bool" where
  "wired = (\<lambda>(sw, w).
     modes w (pin_button (config sw)) = Some GPIO_IN
     \<and> modes w (pin_enable (config sw)) = Some GPIO_OUT
     \<and> modes w (pin_straight (config sw)) = Some GPIO_OUT
     \<and> modes w (pin_turn (config sw)) = Some GPIO_OUT)"

text \<open>
  The state \<open>Idle\<close> of the toggle state machine: set up, in one of the two positions,
  the interrupt armed as \<^verbatim>\<open>__enable_button_interrupt\<close> arms it (with a bounce time that
  the library takes), the driver disabled.
\<close>

definition idle :: "L298NSwitch \<times> world \<Rightarrow> bool" where
  "idle = (\<lambda>(sw, w).
     valid_config (config sw) \<and> wired (sw, w)
     \<and> (state sw = Some 0 \<or> state sw = Some 1)
     \<and> events w (pin_button (config sw)) = Some (RISING, debounce_ms (config sw))
     \<and> bouncetime_error (debounce_ms (config sw)) = None
     \<and> levels w (pin_enable (config sw)) = Some False)"

text \<open>
  The other position, in the words of the specification; the program computes it as
  \<^verbatim>\<open>self.state ^ 1\<close>.
\<close>

fun flip :: "SwitchPosition \<Rightarrow> SwitchPosition" where
  "flip TURN = STRAIGHT"
| "flip STRAIGHT = TURN"

text \<open>
  The first \<open>k\<close> statements of \<^verbatim>\<open>__toggle\<close>, the effects that a run has added to the
  history, and those of one toggle.
\<close>

definition toggle_upto :: "nat \<Rightarrow> switch_prog" where
  "toggle_upto k = run (take k toggle_steps)"

definition effects_since :: "world \<Rightarrow> world \<Rightarrow> effect list" where
  "effects_since w w' = drop (length (trace w)) (trace w')"


text \<open>
  The effects of a toggle that runs to its end, in the order of the statements of
  \<^verbatim>\<open>__toggle\<close>; a toggle that raises leaves a prefix of them.
\<close>

definition code_toggle_effects :: "L298NSwitchSettings \<Rightarrow> int \<Rightarrow> effect list" where
  "code_toggle_effects cfg new_state =
     [Remove_event_detect (pin_button cfg),
      Log_debug (name cfg) new_state,
      Output (pin_enable cfg) True,
      Output (pin_turn cfg) (new_state = 0),
      Output (pin_straight cfg) (new_state \<noteq> 0),
      Sleep_ms (strobe_ms cfg),
      Output (pin_enable cfg) False,
      Add_event_detect (pin_button cfg) RISING (debounce_ms cfg)]"



text \<open>
  A sequence of edges on the button pin: the library goes on after an exception of the
  callback, so every edge is delivered and the exceptions are collected. Then the
  number of edges that the library hands to the callback.
\<close>

fun button_edges :: "signal list \<Rightarrow> L298NSwitch \<times> world \<Rightarrow> (L298NSwitch \<times> world) \<times> exn list" where
  "button_edges [] s = (s, [])"
| "button_edges (sig # sigs) s =
     (case button_edge sig s of
        (s', None) \<Rightarrow> button_edges sigs s'
      | (s', Some e) \<Rightarrow> (case button_edges sigs s' of (s'', es) \<Rightarrow> (s'', e # es)))"

fun accepted :: "signal list \<Rightarrow> L298NSwitch \<times> world \<Rightarrow> nat" where
  "accepted [] s = 0"
| "accepted (sig # sigs) s =
     (if armed sig s then Suc (accepted sigs (fst (button_edge sig s)))
      else accepted sigs (fst (button_edge sig s)))"

text \<open>
  The two exceptions of the GPIO library that the properties name, and the exception
  with which \<^verbatim>\<open>__enable_button_interrupt\<close> ends, if any, on a button pin that is an
  input.
\<close>

definition not_output :: exn where
  "not_output = RuntimeError ''The GPIO channel has not been set up as an OUTPUT''"

definition conflicting_edge :: exn where
  "conflicting_edge = RuntimeError ''Conflicting edge detection already enabled for this GPIO channel''"

definition arm_error :: "L298NSwitchSettings \<Rightarrow> world \<Rightarrow> exn option" where
  "arm_error cfg w =
     (case bouncetime_error (debounce_ms cfg) of
        Some e \<Rightarrow> Some e
      | None \<Rightarrow> if events w (pin_button cfg) \<noteq> None then Some conflicting_edge else None)"

text \<open>
  The effects of a construction that runs to its end, in the order of the statements
  of \<^verbatim>\<open>__init__\<close>.
\<close>

definition code_init_effects :: "L298NSwitchSettings \<Rightarrow> effect list" where
  "code_init_effects cfg =
     [Log_debug (name cfg) (SwitchPosition_value (initial_state cfg)),
      Setup (pin_button cfg) GPIO_IN,
      Setup (pin_enable cfg) GPIO_OUT,
      Setup (pin_straight cfg) GPIO_OUT,
      Setup (pin_turn cfg) GPIO_OUT,
      Output (pin_enable cfg) False,
      Output (pin_turn cfg) (SwitchPosition_value (initial_state cfg) = 0),
      Output (pin_straight cfg) (SwitchPosition_value (initial_state cfg) \<noteq> 0),
      Add_event_detect (pin_button cfg) RISING (debounce_ms cfg)]"

text \<open>
  The switch of the specification's scenario, and the switch it is once constructed in
  the world of the program's start.
\<close>

definition cfg_sw1 :: L298NSwitchSettings where
  "cfg_sw1 = \<lparr>initial_state = TURN, debounce_ms = 200, event_edge = RISING, strobe_ms = 500,
     name = ''sw1'', pin_enable = 17, pin_turn = 27, pin_straight = 22, pin_button = 23\<rparr>"

definition sw1_idle :: "L298NSwitch \<times> world" where
  "sw1_idle = fst (L298NSwitch_init cfg_sw1 boot)"

text \<open>
  The same switch with a strobe of \<open>10\<^sup>1\<^sup>3\<close> milliseconds, a length that \<^verbatim>\<open>time.sleep\<close>
  does not take.
\<close>

definition cfg_long :: L298NSwitchSettings where
  "cfg_long = cfg_sw1\<lparr>strobe_ms := 10 ^ 13\<rparr>"

definition sw_long :: "L298NSwitch \<times> world" where
  "sw_long = fst (L298NSwitch_init cfg_long boot)"

text \<open>
  Entries of a configuration file: one with the required keys only, one with tokens
  that are not member names (the specification's own spelling), the scenario's switch,
  and the same with a falling edge.
\<close>

definition rec_minimal :: switch_cfg where
  "rec_minimal = \<lparr>cfg_initial_state = None, cfg_debounce_ms = None, cfg_event_edge = None,
     cfg_strobe_ms = None, cfg_name = Some ''sw1'', cfg_pin_enable = Some 17,
     cfg_pin_turn = Some 27, cfg_pin_straight = Some 22, cfg_pin_button = Some 23\<rparr>"

definition rec_bad_tokens :: switch_cfg where
  "rec_bad_tokens = \<lparr>cfg_initial_state = Some (TStr ''Turn''), cfg_debounce_ms = Some 200,
     cfg_event_edge = Some (TStr ''Rising''), cfg_strobe_ms = Some 500, cfg_name = Some ''sw1'',
     cfg_pin_enable = Some 17, cfg_pin_turn = Some 27, cfg_pin_straight = Some 22,
     cfg_pin_button = Some 23\<rparr>"

definition rec_sw1 :: switch_cfg where
  "rec_sw1 = \<lparr>cfg_initial_state = Some (TStr ''TURN''), cfg_debounce_ms = Some 200,
     cfg_event_edge = Some (TStr ''RISING''), cfg_strobe_ms = Some 500, cfg_name = Some ''sw1'',
     cfg_pin_enable = Some 17, cfg_pin_turn = Some 27, cfg_pin_straight = Some 22,
     cfg_pin_button = Some 23\<rparr>"

definition rec_falling :: switch_cfg where
  "rec_falling = rec_sw1\<lparr>cfg_event_edge := Some (TStr ''FALLING'')\<rparr>"

definition cfg_falling :: L298NSwitchSettings where
  "cfg_falling = cfg_sw1\<lparr>event_edge := FALLING\<rparr>"

definition sw_falling :: "L298NSwitch \<times> world" where
  "sw_falling = fst (L298NSwitch_init cfg_falling boot)"

text \<open>
  A second switch whose button pin is the turn pin of the first, and the run of the
  main loop on both; then the first switch in the world that run leaves.
\<close>

definition rec_sw2_shared :: switch_cfg where
  "rec_sw2_shared = \<lparr>cfg_initial_state = Some (TStr ''TURN''), cfg_debounce_ms = Some 200,
     cfg_event_edge = Some (TStr ''RISING''), cfg_strobe_ms = Some 500, cfg_name = Some ''sw2'',
     cfg_pin_enable = Some 5, cfg_pin_turn = Some 6, cfg_pin_straight = Some 13,
     cfg_pin_button = Some 27\<rparr>"

definition cfg_sw2_shared :: L298NSwitchSettings where
  "cfg_sw2_shared = \<lparr>initial_state = TURN, debounce_ms = 200, event_edge = RISING,
     strobe_ms = 500, name = ''sw2'', pin_enable = 5, pin_turn = 6, pin_straight = 13,
     pin_button = 27\<rparr>"

definition shared_pin_run :: "(L298NSwitch list \<times> world) \<times> exn option" where
  "shared_pin_run = main_loop [rec_sw1, rec_sw2_shared] ([], boot)"

definition sw1_shared :: "L298NSwitch \<times> world" where
  "sw1_shared = (\<lparr>config = cfg_sw1, state = Some 0\<rparr>, snd (fst shared_pin_run))"

text \<open>
  A second switch with the name of the first and pins of its own, the same with a
  bounce time of 0, and the run of the main loop on the first two.
\<close>

definition rec_dup_name :: switch_cfg where
  "rec_dup_name = \<lparr>cfg_initial_state = Some (TStr ''STRAIGHT''), cfg_debounce_ms = Some 200,
     cfg_event_edge = Some (TStr ''RISING''), cfg_strobe_ms = Some 500, cfg_name = Some ''sw1'',
     cfg_pin_enable = Some 5, cfg_pin_turn = Some 6, cfg_pin_straight = Some 13,
     cfg_pin_button = Some 26\<rparr>"

definition cfg_dup_name :: L298NSwitchSettings where
  "cfg_dup_name = \<lparr>initial_state = STRAIGHT, debounce_ms = 200, event_edge = RISING,
     strobe_ms = 500, name = ''sw1'', pin_enable = 5, pin_turn = 6, pin_straight = 13,
     pin_button = 26\<rparr>"

definition rec_no_debounce :: switch_cfg where
  "rec_no_debounce = rec_dup_name\<lparr>cfg_debounce_ms := Some 0\<rparr>"

definition cfg_no_debounce :: L298NSwitchSettings where
  "cfg_no_debounce = cfg_dup_name\<lparr>debounce_ms := 0\<rparr>"

definition dup_name_run :: "(L298NSwitch list \<times> world) \<times> exn option" where
  "dup_name_run = main_loop [rec_sw1, rec_dup_name] ([], boot)"

section \<open>Running the validation\<close>

lemmas field_defs = field_initial_state_def field_debounce_ms_def field_event_edge_def
  field_strobe_ms_def with_default_def required_def

lemma SwitchPosition_getitem_None:
  "SwitchPosition_getitem t = None \<longleftrightarrow> t \<notin> TStr ` set (map SwitchPosition_name SwitchPosition_members)"
  by (cases t) (auto simp: SwitchPosition_members_def)

lemma EventEdge_getitem_None:
  "EventEdge_getitem t = None \<longleftrightarrow> t \<notin> TStr ` set (map EventEdge_name EventEdge_members)"
  by (cases t) (auto simp: EventEdge_members_def)

lemma model_validate_Inl:
  assumes "validation_errors r \<noteq> []"
  shows "model_validate r = Inl (ValidationError (validation_errors r))"
  using assms unfolding model_validate_def validation_errors_def line_errors_def
  by (simp split: sum.splits)

lemma model_validate_Inr:
  assumes "field_initial_state r = Inr s" "field_debounce_ms r = Inr d"
    "field_event_edge r = Inr e" "field_strobe_ms r = Inr t"
    "cfg_name r = Some n" "cfg_pin_enable r = Some pe" "cfg_pin_turn r = Some pt"
    "cfg_pin_straight r = Some ps" "cfg_pin_button r = Some pb"
  shows "model_validate r = Inr \<lparr>initial_state = s, debounce_ms = d, event_edge = e,
      strobe_ms = t, name = n, pin_enable = pe, pin_turn = pt, pin_straight = ps,
      pin_button = pb\<rparr>"
  using assms by (simp add: model_validate_def required_def)

lemma line_errors_Inl: "line_errors f (Inl e) = [(f, e)]"
  by (simp add: line_errors_def)

lemma initial_state_error:
  assumes "cfg_initial_state r = Some t" "SwitchPosition_getitem t = None"
  shows "(''initial_state'', Value_error
          [Lit ''Error validating switch position '', Key t,
           Lit ''. Valid switch positions are: '', Names [''TURN'', ''STRAIGHT'']])
         \<in> set (validation_errors r)"
  using assms
  by (simp add: validation_errors_def field_initial_state_def with_default_def
      validate_switch_position_def SwitchPosition_members_def line_errors_Inl)

lemma event_edge_error:
  assumes "cfg_event_edge r = Some t" "EventEdge_getitem t = None"
  shows "(''event_edge'', Value_error
          [Lit ''Error validating event edge '', Key t,
           Lit ''. Valid event edges are: '', Names [''FALLING'', ''RISING'', ''BOTH'']])
         \<in> set (validation_errors r)"
  using assms
  by (simp add: validation_errors_def field_event_edge_def with_default_def
      validate_event_edge_def EventEdge_members_def line_errors_Inl)

lemma main_loop_invalid:
  "model_validate r = Inl e \<Longrightarrow> main_loop (r # rest) (switches, w) = ((switches, w), Some e)"
  by simp

lemma field_debounce_ms_Inr:
  "field_debounce_ms r = Inr (case cfg_debounce_ms r of None \<Rightarrow> 200 | Some d \<Rightarrow> d)"
  by (simp add: field_debounce_ms_def with_default_def split: option.splits)

lemma field_strobe_ms_Inr:
  "field_strobe_ms r = Inr (case cfg_strobe_ms r of None \<Rightarrow> 500 | Some t \<Rightarrow> t)"
  by (simp add: field_strobe_ms_def with_default_def split: option.splits)

lemma field_initial_state_Inr:
  assumes "\<forall>t. cfg_initial_state r = Some t \<longrightarrow> SwitchPosition_getitem t \<noteq> None"
  shows "\<exists>s. field_initial_state r = Inr s \<and> (cfg_initial_state r = None \<longrightarrow> s = TURN)"
  using assms
  by (cases "cfg_initial_state r")
    (auto simp: field_initial_state_def with_default_def validate_switch_position_def)

lemma field_event_edge_Inr:
  assumes "\<forall>t. cfg_event_edge r = Some t \<longrightarrow> EventEdge_getitem t \<noteq> None"
  shows "\<exists>e. field_event_edge r = Inr e \<and> (cfg_event_edge r = None \<longrightarrow> e = RISING)"
  using assms
  by (cases "cfg_event_edge r")
    (auto simp: field_event_edge_def with_default_def validate_event_edge_def)

lemma missing_required:
  assumes "cfg_name r = None \<or> cfg_pin_enable r = None \<or> cfg_pin_turn r = None
      \<or> cfg_pin_straight r = None \<or> cfg_pin_button r = None"
  shows "\<exists>field \<in> {''name'', ''pin_enable'', ''pin_turn'', ''pin_straight'', ''pin_button''}.
      (field, Missing) \<in> set (validation_errors r)"
  using assms
  by (auto simp: validation_errors_def required_def line_errors_Inl)

section \<open>Running the switch\<close>

lemmas gpio_defs = GPIO_setup_def GPIO_output_def GPIO_remove_event_detect_def
  channel_error_def logger_debug_def emit_def

lemmas switch_defs = on_world_def state_setter_def state_xor_1_def set_direction_pins_def
  enable_switch_def disable_switch_def strobe_def init_pins_def enable_button_interrupt_def
  disable_button_interrupt_def

lemma valid_channel_c_int: "valid_channel ch \<Longrightarrow> c_int ch"
  by (simp add: valid_channel_def c_int_def)

lemma run_append:
  "run (fs @ gs) s = (case run fs s of (s', None) \<Rightarrow> run gs s' | (s', Some e) \<Rightarrow> (s', Some e))"
  by (induction fs arbitrary: s) (auto split: prod.splits option.splits)

lemma time_sleep_ms_cases:
  "time_sleep_ms ms w =
     (case sleep_error ms w of Some e \<Rightarrow> (w, Some e) | None \<Rightarrow> (w\<lparr>trace := trace w @ [Sleep_ms ms]\<rparr>, None))"
  by (simp add: time_sleep_ms_def emit_def split: option.splits)

lemma add_event_detect_cases:
  assumes "valid_channel ch" "modes w ch = Some GPIO_IN"
  shows "GPIO_add_event_detect ch edge d w =
     (case bouncetime_error d of
        Some e \<Rightarrow> (w, Some e)
      | None \<Rightarrow>
          if events w ch \<noteq> None then (w, Some conflicting_edge)
          else (w\<lparr>events := (events w)(ch \<mapsto> (edge, d)),
                  trace := trace w @ [Add_event_detect ch edge d]\<rparr>, None))"
  using assms valid_channel_c_int [OF assms(1)]
  by (simp add: GPIO_add_event_detect_def bouncetime_error_def conflicting_edge_def emit_def)

lemma toggle_upto_2:
  assumes "valid_channel (pin_button (config sw))" "state sw = Some v"
  shows "toggle_upto 2 (sw, w) =
    ((sw\<lparr>state := Some (v XOR 1)\<rparr>,
      w\<lparr>events := (events w)(pin_button (config sw) := None),
        trace := trace w @ take 2 (code_toggle_effects (config sw) (v XOR 1))\<rparr>), None)"
  using assms valid_channel_c_int [OF assms(1)]
  by (simp add: toggle_upto_def toggle_steps_def switch_defs gpio_defs code_toggle_effects_def)

lemma toggle_upto_4:
  assumes "valid_config (config sw)" "wired (sw, w)" "state sw = Some v"
  shows "toggle_upto 4 (sw, w) =
    ((sw\<lparr>state := Some (v XOR 1)\<rparr>,
      w\<lparr>levels := (levels w)(pin_enable (config sw) \<mapsto> True,
                              pin_turn (config sw) \<mapsto> (v XOR 1 = 0),
                              pin_straight (config sw) \<mapsto> (v XOR 1 \<noteq> 0)),
        events := (events w)(pin_button (config sw) := None),
        trace := trace w @ take 5 (code_toggle_effects (config sw) (v XOR 1))\<rparr>), None)"
  using assms
  by (simp add: toggle_upto_def toggle_steps_def switch_defs gpio_defs code_toggle_effects_def
      valid_config_def wired_def valid_channel_c_int)

lemma toggle_upto_5:
  assumes "valid_config (config sw)" "wired (sw, w)" "state sw = Some v"
  shows "toggle_upto 5 (sw, w) =
    (case sleep_error (strobe_ms (config sw)) (snd (fst (toggle_upto 4 (sw, w)))) of
       Some e \<Rightarrow>
         ((sw\<lparr>state := Some (v XOR 1)\<rparr>,
           w\<lparr>levels := (levels w)(pin_enable (config sw) \<mapsto> True,
                                   pin_turn (config sw) \<mapsto> (v XOR 1 = 0),
                                   pin_straight (config sw) \<mapsto> (v XOR 1 \<noteq> 0)),
             events := (events w)(pin_button (config sw) := None),
             trace := trace w @ take 5 (code_toggle_effects (config sw) (v XOR 1))\<rparr>), Some e)
     | None \<Rightarrow>
         ((sw\<lparr>state := Some (v XOR 1)\<rparr>,
           w\<lparr>levels := (levels w)(pin_enable (config sw) \<mapsto> True,
                                   pin_turn (config sw) \<mapsto> (v XOR 1 = 0),
                                   pin_straight (config sw) \<mapsto> (v XOR 1 \<noteq> 0)),
             events := (events w)(pin_button (config sw) := None),
             trace := trace w @ take 6 (code_toggle_effects (config sw) (v XOR 1))\<rparr>), None))"
proof -
  have s: "take 5 toggle_steps = take 4 toggle_steps @ [strobe]"
    by (simp add: toggle_steps_def)
  show ?thesis
    unfolding toggle_upto_def s run_append
    unfolding toggle_upto_def [symmetric] toggle_upto_4 [OF assms]
    by (simp add: strobe_def on_world_def time_sleep_ms_cases code_toggle_effects_def
        split: option.splits)
qed

lemma toggle_result:
  assumes "valid_config (config sw)" "wired (sw, w)" "state sw = Some v"
  shows "toggle (sw, w) =
    (case sleep_error (strobe_ms (config sw)) (snd (fst (toggle_upto 4 (sw, w)))) of
       Some e \<Rightarrow>
         ((sw\<lparr>state := Some (v XOR 1)\<rparr>,
           w\<lparr>levels := (levels w)(pin_enable (config sw) \<mapsto> True,
                                   pin_turn (config sw) \<mapsto> (v XOR 1 = 0),
                                   pin_straight (config sw) \<mapsto> (v XOR 1 \<noteq> 0)),
             events := (events w)(pin_button (config sw) := None),
             trace := trace w @ take 5 (code_toggle_effects (config sw) (v XOR 1))\<rparr>), Some e)
     | None \<Rightarrow>
        (case bouncetime_error (debounce_ms (config sw)) of
           Some e \<Rightarrow>
             ((sw\<lparr>state := Some (v XOR 1)\<rparr>,
               w\<lparr>levels := (levels w)(pin_turn (config sw) \<mapsto> (v XOR 1 = 0),
                                       pin_straight (config sw) \<mapsto> (v XOR 1 \<noteq> 0),
                                       pin_enable (config sw) \<mapsto> False),
                 events := (events w)(pin_button (config sw) := None),
                 trace := trace w @ take 7 (code_toggle_effects (config sw) (v XOR 1))\<rparr>), Some e)
         | None \<Rightarrow>
             ((sw\<lparr>state := Some (v XOR 1)\<rparr>,
               w\<lparr>levels := (levels w)(pin_turn (config sw) \<mapsto> (v XOR 1 = 0),
                                       pin_straight (config sw) \<mapsto> (v XOR 1 \<noteq> 0),
                                       pin_enable (config sw) \<mapsto> False),
                 events := (events w)(pin_button (config sw)
                              \<mapsto> (RISING, debounce_ms (config sw))),
                 trace := trace w @ code_toggle_effects (config sw) (v XOR 1)\<rparr>), None)))"
proof -
  have s: "toggle_steps = take 5 toggle_steps @ [disable_switch, enable_button_interrupt]"
    by (simp add: toggle_steps_def)
  from assms(1) have vb: "valid_channel (pin_button (config sw))"
    and d: "pin_enable (config sw) \<noteq> pin_turn (config sw)"
      "pin_enable (config sw) \<noteq> pin_straight (config sw)"
      "pin_button (config sw) \<noteq> pin_enable (config sw)"
    and ve: "valid_channel (pin_enable (config sw))"
    by (simp_all add: valid_config_def)
  from assms(2) have m: "modes w (pin_button (config sw)) = Some GPIO_IN"
    "modes w (pin_enable (config sw)) = Some GPIO_OUT"
    by (simp_all add: wired_def)
  show ?thesis
  proof (cases "sleep_error (strobe_ms (config sw)) (snd (fst (toggle_upto 4 (sw, w))))")
    case (Some e)
    have "toggle (sw, w) = run (take 5 toggle_steps @ [disable_switch, enable_button_interrupt]) (sw, w)"
      unfolding toggle_def using s by simp
    then show ?thesis
      unfolding run_append toggle_upto_def [symmetric] toggle_upto_5 [OF assms]
      using Some by simp
  next
    case None
    have "toggle (sw, w) = run (take 5 toggle_steps @ [disable_switch, enable_button_interrupt]) (sw, w)"
      unfolding toggle_def using s by simp
    then show ?thesis
      unfolding run_append toggle_upto_def [symmetric] toggle_upto_5 [OF assms]
      using None d m vb ve
      by (simp add: disable_switch_def enable_button_interrupt_def on_world_def
          GPIO_output_def channel_error_def emit_def valid_channel_c_int
          add_event_detect_cases code_toggle_effects_def fun_upd_twist
          split: option.splits)
  qed
qed

lemma init_pins_result:
  assumes "valid_config (config sw)" "state sw = Some v"
  shows "init_pins (sw, w) =
    ((sw, w\<lparr>modes := (modes w)(pin_button (config sw) \<mapsto> GPIO_IN,
                                 pin_enable (config sw) \<mapsto> GPIO_OUT,
                                 pin_straight (config sw) \<mapsto> GPIO_OUT,
                                 pin_turn (config sw) \<mapsto> GPIO_OUT),
            levels := (levels w)(pin_enable (config sw) \<mapsto> False,
                                  pin_turn (config sw) \<mapsto> (v = 0),
                                  pin_straight (config sw) \<mapsto> (v \<noteq> 0)),
            trace := trace w @
              [Setup (pin_button (config sw)) GPIO_IN,
               Setup (pin_enable (config sw)) GPIO_OUT,
               Setup (pin_straight (config sw)) GPIO_OUT,
               Setup (pin_turn (config sw)) GPIO_OUT,
               Output (pin_enable (config sw)) False,
               Output (pin_turn (config sw)) (v = 0),
               Output (pin_straight (config sw)) (v \<noteq> 0)]\<rparr>), None)"
  using assms
  by (simp add: switch_defs gpio_defs valid_config_def valid_channel_c_int)

lemma init_result:
  assumes "valid_config cfg"
  shows "L298NSwitch_init cfg w =
    (case arm_error cfg w of
       Some e \<Rightarrow>
         ((\<lparr>config = cfg, state = Some (SwitchPosition_value (initial_state cfg))\<rparr>,
           w\<lparr>modes := (modes w)(pin_button cfg \<mapsto> GPIO_IN, pin_enable cfg \<mapsto> GPIO_OUT,
                                 pin_straight cfg \<mapsto> GPIO_OUT, pin_turn cfg \<mapsto> GPIO_OUT),
             levels := (levels w)(pin_enable cfg \<mapsto> False,
                 pin_turn cfg \<mapsto> (SwitchPosition_value (initial_state cfg) = 0),
                 pin_straight cfg \<mapsto> (SwitchPosition_value (initial_state cfg) \<noteq> 0)),
             trace := trace w @ take 8 (code_init_effects cfg)\<rparr>), Some e)
     | None \<Rightarrow>
         ((\<lparr>config = cfg, state = Some (SwitchPosition_value (initial_state cfg))\<rparr>,
           w\<lparr>modes := (modes w)(pin_button cfg \<mapsto> GPIO_IN, pin_enable cfg \<mapsto> GPIO_OUT,
                                 pin_straight cfg \<mapsto> GPIO_OUT, pin_turn cfg \<mapsto> GPIO_OUT),
             levels := (levels w)(pin_enable cfg \<mapsto> False,
                 pin_turn cfg \<mapsto> (SwitchPosition_value (initial_state cfg) = 0),
                 pin_straight cfg \<mapsto> (SwitchPosition_value (initial_state cfg) \<noteq> 0)),
             events := (events w)(pin_button cfg \<mapsto> (RISING, debounce_ms cfg)),
             trace := trace w @ code_init_effects cfg\<rparr>), None))"
proof -
  define sw0 where "sw0 = \<lparr>config = cfg, state = Some (SwitchPosition_value (initial_state cfg))\<rparr>"
  have c: "config sw0 = cfg" and s: "state sw0 = Some (SwitchPosition_value (initial_state cfg))"
    by (simp_all add: sw0_def)
  have v: "valid_config (config sw0)"
    using assms c by simp
  from assms have vb: "valid_channel (pin_button cfg)"
    and d: "pin_button cfg \<noteq> pin_enable cfg" "pin_button cfg \<noteq> pin_straight cfg"
      "pin_button cfg \<noteq> pin_turn cfg"
    by (auto simp: valid_config_def)
  have 1: "state_setter (SwitchPosition_value (initial_state cfg)) (\<lparr>config = cfg, state = None\<rparr>, w)
      = ((sw0, w\<lparr>trace := trace w @ [Log_debug (name cfg) (SwitchPosition_value (initial_state cfg))]\<rparr>), None)"
    by (simp add: state_setter_def logger_debug_def emit_def sw0_def)
  show ?thesis
    unfolding L298NSwitch_init_def sw0_def [symmetric]
    using d vb
    by (simp add: 1 init_pins_result [OF v s] c enable_button_interrupt_def on_world_def
        add_event_detect_cases arm_error_def code_init_effects_def
        split: option.splits)
qed

lemma init_idle:
  assumes "valid_config cfg" "snd (L298NSwitch_init cfg w) = None"
  shows "idle (fst (L298NSwitch_init cfg w))"
proof -
  from assms(2) have a: "arm_error cfg w = None"
    by (simp add: init_result [OF assms(1)] split: option.splits)
  then have b: "bouncetime_error (debounce_ms cfg) = None"
    by (simp add: arm_error_def split: option.splits)
  have p: "SwitchPosition_value (initial_state cfg) = 0 \<or> SwitchPosition_value (initial_state cfg) = 1"
    by (cases "initial_state cfg") simp_all
  from assms(1) have d: "distinct [pin_enable cfg, pin_turn cfg, pin_straight cfg, pin_button cfg]"
    by (simp add: valid_config_def)
  show ?thesis
    using a b p d assms(1)
    by (simp add: init_result [OF assms(1)] idle_def wired_def)
qed

lemma toggle_idle:
  assumes "idle (sw, w)" "snd (toggle (sw, w)) = None"
  shows "idle (fst (toggle (sw, w)))"
proof -
  from assms(1) have v: "valid_config (config sw)" and r: "wired (sw, w)"
    and b: "bouncetime_error (debounce_ms (config sw)) = None"
    by (simp_all add: idle_def)
  from assms(1) consider "state sw = Some 0" | "state sw = Some 1"
    by (auto simp: idle_def)
  then show ?thesis
  proof cases
    case 1
    from assms(2) have s: "sleep_error (strobe_ms (config sw)) (snd (fst (toggle_upto 4 (sw, w)))) = None"
      by (simp add: toggle_result [OF v r 1] b split: option.splits)
    from v r have "distinct [pin_enable (config sw), pin_turn (config sw),
        pin_straight (config sw), pin_button (config sw)]"
      by (simp add: valid_config_def)
    then show ?thesis
      using v r b s by (simp add: toggle_result [OF v r 1] idle_def wired_def)
  next
    case 2
    from assms(2) have s: "sleep_error (strobe_ms (config sw)) (snd (fst (toggle_upto 4 (sw, w)))) = None"
      by (simp add: toggle_result [OF v r 2] b split: option.splits)
    from v r have "distinct [pin_enable (config sw), pin_turn (config sw),
        pin_straight (config sw), pin_button (config sw)]"
      by (simp add: valid_config_def)
    then show ?thesis
      using v r b s by (simp add: toggle_result [OF v r 2] idle_def wired_def)
  qed
qed

lemma valid_cfg_sw1: "valid_config cfg_sw1"
  by (simp add: cfg_sw1_def valid_config_def valid_channel_def)

lemma boot_events: "events boot p = None"
  by (simp add: boot_def)

lemma arm_error_sw1_boot: "arm_error cfg_sw1 boot = None"
  by (simp add: arm_error_def bouncetime_error_def c_int_def cfg_sw1_def boot_def)

lemma init_sw1_ok: "snd (L298NSwitch_init cfg_sw1 boot) = None"
  by (simp add: init_result [OF valid_cfg_sw1] arm_error_sw1_boot)

lemma idle_sw1: "idle sw1_idle"
  unfolding sw1_idle_def by (rule init_idle [OF valid_cfg_sw1 init_sw1_ok])

lemma idle_wired: "idle s \<Longrightarrow> wired s"
  by (cases s) (simp add: idle_def)

lemma sw1_idle_config: "config (fst sw1_idle) = cfg_sw1"
  by (simp add: sw1_idle_def init_result [OF valid_cfg_sw1] arm_error_sw1_boot)

lemma sw1_idle_state: "state (fst sw1_idle) = Some 0"
  by (simp add: sw1_idle_def init_result [OF valid_cfg_sw1] arm_error_sw1_boot)
    (simp add: cfg_sw1_def)

lemma sw1_idle_clock: "sleep_limit_ms (snd sw1_idle) = sleep_limit_ms boot"
  by (simp add: sw1_idle_def init_result [OF valid_cfg_sw1] arm_error_sw1_boot)

lemma sleep_boot_ok:
  assumes "sleep_limit_ms w = sleep_limit_ms boot" "0 \<le> ms" "ms \<le> 9223372036854"
  shows "sleep_error ms w = None"
  using assms by (simp add: sleep_error_def boot_def)

lemma strobe_clock:
  assumes "valid_config (config sw)" "wired (sw, w)" "state sw = Some v"
  shows "sleep_limit_ms (snd (fst (toggle_upto 4 (sw, w)))) = sleep_limit_ms w"
  by (simp add: toggle_upto_4 [OF assms])

lemma sleep_sw1_ok:
  "sleep_error (strobe_ms cfg_sw1) (snd (fst (toggle_upto 4 sw1_idle))) = None"
proof -
  have v: "valid_config (config (fst sw1_idle))"
    by (simp add: sw1_idle_config valid_cfg_sw1)
  have r: "wired (fst sw1_idle, snd sw1_idle)"
    using idle_wired [OF idle_sw1] by simp
  have "sleep_limit_ms (snd (fst (toggle_upto 4 sw1_idle))) = sleep_limit_ms boot"
    using strobe_clock [OF v r sw1_idle_state] by (simp add: sw1_idle_clock)
  then show ?thesis
    by (rule sleep_boot_ok) (simp_all add: cfg_sw1_def)
qed

lemma flip_value: "SwitchPosition_value (flip p) = SwitchPosition_value p XOR 1"
  by (cases p) simp_all

lemma flip_flip: "flip (flip p) = p"
  by (cases p) simp_all

lemma arm_error_None: "arm_error cfg w = None \<longleftrightarrow>
    bouncetime_error (debounce_ms cfg) = None \<and> events w (pin_button cfg) = None"
  by (cases "events w (pin_button cfg)") (auto simp: arm_error_def split: option.splits)

lemma set_direction_pins_wired:
  assumes "valid_config (config sw)" "wired (sw, w)" "state sw = Some v"
  shows "set_direction_pins (sw, w) =
    ((sw, w\<lparr>levels := (levels w)(pin_turn (config sw) \<mapsto> (v = 0),
                                  pin_straight (config sw) \<mapsto> (v \<noteq> 0)),
            trace := trace w @ [Output (pin_turn (config sw)) (v = 0),
                                Output (pin_straight (config sw)) (v \<noteq> 0)]\<rparr>), None)"
  using assms
  by (simp add: switch_defs gpio_defs valid_config_def wired_def valid_channel_c_int)

lemma toggle_levels:
  assumes "valid_config (config sw)" "wired (sw, w)" "state sw = Some v"
  shows "levels (snd (fst (toggle (sw, w)))) (pin_turn (config sw)) = Some (v XOR 1 = 0)"
    "levels (snd (fst (toggle (sw, w)))) (pin_straight (config sw)) = Some (v XOR 1 \<noteq> 0)"
proof -
  from assms(1) have d: "distinct [pin_enable (config sw), pin_turn (config sw),
      pin_straight (config sw)]"
    by (simp add: valid_config_def)
  show "levels (snd (fst (toggle (sw, w)))) (pin_turn (config sw)) = Some (v XOR 1 = 0)"
    using d by (simp add: toggle_result [OF assms] split: option.splits)
  show "levels (snd (fst (toggle (sw, w)))) (pin_straight (config sw)) = Some (v XOR 1 \<noteq> 0)"
    using d by (simp add: toggle_result [OF assms] split: option.splits)
qed

lemma idle_armed_Rise: "idle s \<Longrightarrow> armed Rise s"
  by (cases s) (simp add: idle_def armed_def)

lemma idle_not_armed_Fall: "idle s \<Longrightarrow> \<not> armed Fall s"
  by (cases s) (simp add: idle_def armed_def)

lemma idle_events:
  "idle s \<Longrightarrow> events (snd s) (pin_button (config (fst s)))
     = Some (RISING, debounce_ms (config (fst s)))"
  by (cases s) (simp add: idle_def)

lemma button_edge_disarmed:
  "events w (pin_button (config sw)) = None \<Longrightarrow> button_edge sig (sw, w) = ((sw, w), None)"
  by (simp add: button_edge_def armed_def)

lemma toggle_split: "toggle s =
    (case toggle_upto k s of (s', None) \<Rightarrow> run (drop k toggle_steps) s' | (s', Some e) \<Rightarrow> (s', Some e))"
  unfolding toggle_def toggle_upto_def
  using run_append [of "take k toggle_steps" "drop k toggle_steps" s] by simp

lemma toggle_flips:
  assumes "valid_channel (pin_button (config sw))" "state sw = Some v"
  shows "\<exists>w' r. toggle (sw, w) = ((sw\<lparr>state := Some (v XOR 1)\<rparr>, w'), r)"
proof -
  have keep: "\<exists>w' r. run fs (sw', w0) = ((sw', w'), r)"
    if "\<forall>f \<in> set fs. \<forall>sw w. fst (fst (f (sw, w))) = sw" for fs sw' w0
    using that
  proof (induction fs arbitrary: w0)
    case Nil
    then show ?case by simp
  next
    case (Cons f fs)
    obtain sw1 w1 r1 where f: "f (sw', w0) = ((sw1, w1), r1)"
      by (metis prod.collapse)
    with Cons.prems have "sw1 = sw'"
      by (metis fst_conv list.set_intros(1))
    with f Cons show ?case
      by (cases r1) auto
  qed
  have ow: "fst (fst (on_world f (sw, w))) = sw" for f sw w
    by (simp add: on_world_def split: prod.splits)
  have sd: "fst (fst (set_direction_pins (sw, w))) = sw" for sw w
    by (auto simp: set_direction_pins_def on_world_def split: prod.splits option.splits)
  have rest: "\<forall>f \<in> set (drop 2 toggle_steps). \<forall>sw w. fst (fst (f (sw, w))) = sw"
    by (simp add: toggle_steps_def enable_switch_def strobe_def disable_switch_def
        enable_button_interrupt_def ow sd)
  from keep [OF rest] obtain w' r where
    "run (drop 2 toggle_steps) (sw\<lparr>state := Some (v XOR 1)\<rparr>,
        w\<lparr>events := (events w)(pin_button (config sw) := None),
          trace := trace w @ take 2 (code_toggle_effects (config sw) (v XOR 1))\<rparr>)
      = ((sw\<lparr>state := Some (v XOR 1)\<rparr>, w'), r)"
    by blast
  then show ?thesis
    by (simp add: toggle_split [of _ 2] toggle_upto_2 [OF assms])
qed

lemma valid_cfg_long: "valid_config cfg_long"
  by (simp add: cfg_long_def cfg_sw1_def valid_config_def valid_channel_def)

lemma arm_error_long_boot: "arm_error cfg_long boot = None"
  by (simp add: arm_error_def bouncetime_error_def c_int_def cfg_long_def cfg_sw1_def boot_def)

lemma idle_sw_long: "idle sw_long"
  unfolding sw_long_def
  by (rule init_idle [OF valid_cfg_long])
    (simp add: init_result [OF valid_cfg_long] arm_error_long_boot)

lemma sw_long_config: "config (fst sw_long) = cfg_long"
  by (simp add: sw_long_def init_result [OF valid_cfg_long] arm_error_long_boot)

lemma sw_long_state: "state (fst sw_long) = Some 0"
  by (simp add: sw_long_def init_result [OF valid_cfg_long] arm_error_long_boot)
    (simp add: cfg_long_def cfg_sw1_def)

lemma sleep_long_overflow: "sleep_error (strobe_ms cfg_long) w = Some OverflowError"
  by (simp add: sleep_error_def cfg_long_def)



lemma sleep_error_same_clock:
  assumes "sleep_limit_ms w' = sleep_limit_ms w" "sleep_refusal w' = sleep_refusal w"
    "trace w' = trace w"
  shows "sleep_error ms w' = sleep_error ms w"
  using assms by (simp add: sleep_error_def)

lemma toggle_idle_ok:
  assumes "idle (sw, w)" "state sw = Some v"
    "sleep_error (strobe_ms (config sw)) (snd (fst (toggle_upto 4 (sw, w)))) = None"
  shows "\<exists>w'. toggle (sw, w) = ((sw\<lparr>state := Some (v XOR 1)\<rparr>, w'), None)
      \<and> idle (sw\<lparr>state := Some (v XOR 1)\<rparr>, w')
      \<and> sleep_limit_ms w' = sleep_limit_ms w \<and> sleep_refusal w' = sleep_refusal w"
proof -
  from assms(1) have v: "valid_config (config sw)" and r: "wired (sw, w)"
    and b: "bouncetime_error (debounce_ms (config sw)) = None"
    by (simp_all add: idle_def)
  have n: "snd (toggle (sw, w)) = None"
    by (simp add: toggle_result [OF v r assms(2)] assms(3) b)
  from toggle_idle [OF assms(1) n] show ?thesis
    by (simp add: toggle_result [OF v r assms(2)] assms(3) b)
qed

lemma edges_idle:
  "idle (sw, w) \<Longrightarrow> \<forall>t. sleep_error (strobe_ms (config sw)) (w\<lparr>trace := t\<rparr>) = None \<Longrightarrow>
   snd (button_edges sigs (sw, w)) = [] \<and> accepted sigs (sw, w) = count_list sigs Rise"
proof (induction sigs arbitrary: sw w)
  case Nil
  then show ?case by simp
next
  case (Cons sig sigs)
  show ?case
  proof (cases sig)
    case Rise
    from Cons.prems(1) obtain v where v: "state sw = Some v"
      by (auto simp: idle_def)
    from Cons.prems(1) have vc: "valid_config (config sw)" and r: "wired (sw, w)"
      by (simp_all add: idle_def)
    have "sleep_error (strobe_ms (config sw)) (snd (fst (toggle_upto 4 (sw, w))))
        = sleep_error (strobe_ms (config sw))
            (w\<lparr>trace := trace w @ take 5 (code_toggle_effects (config sw) (v XOR 1))\<rparr>)"
      by (rule sleep_error_same_clock) (simp_all add: toggle_upto_4 [OF vc r v])
    with Cons.prems(2)
    have z4: "sleep_error (strobe_ms (config sw)) (snd (fst (toggle_upto 4 (sw, w)))) = None"
      by simp
    from toggle_idle_ok [OF Cons.prems(1) v z4] obtain w1 where
      t: "toggle (sw, w) = ((sw\<lparr>state := Some (v XOR 1)\<rparr>, w1), None)"
      and i: "idle (sw\<lparr>state := Some (v XOR 1)\<rparr>, w1)"
      and c: "sleep_limit_ms w1 = sleep_limit_ms w" "sleep_refusal w1 = sleep_refusal w"
      by auto
    have z: "\<forall>t. sleep_error (strobe_ms (config (sw\<lparr>state := Some (v XOR 1)\<rparr>)))
        (w1\<lparr>trace := t\<rparr>) = None"
    proof
      fix t
      have "sleep_error (strobe_ms (config sw)) (w1\<lparr>trace := t\<rparr>)
          = sleep_error (strobe_ms (config sw)) (w\<lparr>trace := t\<rparr>)"
        by (rule sleep_error_same_clock) (simp_all add: c)
      with Cons.prems(2)
      show "sleep_error (strobe_ms (config (sw\<lparr>state := Some (v XOR 1)\<rparr>)))
          (w1\<lparr>trace := t\<rparr>) = None"
        by simp
    qed
    have a: "armed sig (sw, w)"
      using Rise idle_armed_Rise [OF Cons.prems(1)] by simp
    have b: "button_edge sig (sw, w) = ((sw\<lparr>state := Some (v XOR 1)\<rparr>, w1), None)"
      using a t by (simp add: button_edge_def)
    from Cons.IH [OF i z] a b Rise show ?thesis
      by simp
  next
    case Fall
    have a: "\<not> armed sig (sw, w)"
      using Fall idle_not_armed_Fall [OF Cons.prems(1)] by simp
    then have b: "button_edge sig (sw, w) = ((sw, w), None)"
      by (simp add: button_edge_def)
    from Cons.IH [OF Cons.prems] a b Fall show ?thesis
      by simp
  qed
qed

section \<open>Running the main loop\<close>

lemmas validate_defs = model_validate_def field_defs validate_switch_position_def
  validate_event_edge_def SwitchPosition_members_def EventEdge_members_def

lemma init_valid:
  assumes "valid_config cfg" "bouncetime_error (debounce_ms cfg) = None"
    "events w (pin_button cfg) = None"
  shows "L298NSwitch_init cfg w =
    ((\<lparr>config = cfg, state = Some (SwitchPosition_value (initial_state cfg))\<rparr>,
      w\<lparr>modes := (modes w)(pin_button cfg \<mapsto> GPIO_IN, pin_enable cfg \<mapsto> GPIO_OUT,
                            pin_straight cfg \<mapsto> GPIO_OUT, pin_turn cfg \<mapsto> GPIO_OUT),
        levels := (levels w)(pin_enable cfg \<mapsto> False,
            pin_turn cfg \<mapsto> (SwitchPosition_value (initial_state cfg) = 0),
            pin_straight cfg \<mapsto> (SwitchPosition_value (initial_state cfg) \<noteq> 0)),
        events := (events w)(pin_button cfg \<mapsto> (RISING, debounce_ms cfg)),
        trace := trace w @ code_init_effects cfg\<rparr>), None)"
proof -
  have "arm_error cfg w = None"
    using assms(2,3) by (simp add: arm_error_None)
  then show ?thesis
    by (simp add: init_result [OF assms(1)])
qed

lemma bounce_200: "bouncetime_error 200 = None"
  by (simp add: bouncetime_error_def c_int_def)

lemma idle_falling: "idle sw_falling"
proof -
  have v: "valid_config cfg_falling"
    by (simp add: cfg_falling_def cfg_sw1_def valid_config_def valid_channel_def)
  have a: "arm_error cfg_falling boot = None"
    by (simp add: arm_error_None bounce_200 boot_def cfg_falling_def cfg_sw1_def)
  show ?thesis
    unfolding sw_falling_def
    by (rule init_idle [OF v]) (simp add: init_result [OF v] a)
qed

lemma toggle_enable_write_fails:
  assumes "valid_config (config sw)" "state sw = Some v"
    "modes w (pin_enable (config sw)) \<noteq> Some GPIO_OUT"
  shows "toggle (sw, w) =
    ((sw\<lparr>state := Some (v XOR 1)\<rparr>,
      w\<lparr>events := (events w)(pin_button (config sw) := None),
        trace := trace w @
          [Remove_event_detect (pin_button (config sw)),
           Log_debug (name (config sw)) (v XOR 1)]\<rparr>), Some not_output)"
  using assms
  by (simp add: toggle_def toggle_steps_def switch_defs gpio_defs valid_config_def not_output_def
      valid_channel_c_int)

lemma toggle_turn_write_fails:
  assumes "valid_config (config sw)" "state sw = Some v"
    "modes w (pin_enable (config sw)) = Some GPIO_OUT"
    "modes w (pin_turn (config sw)) \<noteq> Some GPIO_OUT"
  shows "toggle (sw, w) =
    ((sw\<lparr>state := Some (v XOR 1)\<rparr>,
      w\<lparr>levels := (levels w)(pin_enable (config sw) \<mapsto> True),
        events := (events w)(pin_button (config sw) := None),
        trace := trace w @
          [Remove_event_detect (pin_button (config sw)),
           Log_debug (name (config sw)) (v XOR 1),
           Output (pin_enable (config sw)) True]\<rparr>), Some not_output)"
  using assms
  by (simp add: toggle_def toggle_steps_def switch_defs gpio_defs valid_config_def not_output_def
      valid_channel_c_int)

lemma toggle_straight_write_fails:
  assumes "valid_config (config sw)" "state sw = Some v"
    "modes w (pin_enable (config sw)) = Some GPIO_OUT"
    "modes w (pin_turn (config sw)) = Some GPIO_OUT"
    "modes w (pin_straight (config sw)) \<noteq> Some GPIO_OUT"
  shows "toggle (sw, w) =
    ((sw\<lparr>state := Some (v XOR 1)\<rparr>,
      w\<lparr>levels := (levels w)(pin_enable (config sw) \<mapsto> True,
                              pin_turn (config sw) \<mapsto> (v XOR 1 = 0)),
        events := (events w)(pin_button (config sw) := None),
        trace := trace w @
          [Remove_event_detect (pin_button (config sw)),
           Log_debug (name (config sw)) (v XOR 1),
           Output (pin_enable (config sw)) True,
           Output (pin_turn (config sw)) (v XOR 1 = 0)]\<rparr>), Some not_output)"
  using assms
  by (simp add: toggle_def toggle_steps_def switch_defs gpio_defs valid_config_def not_output_def
      valid_channel_c_int)

lemma model_validate_rec_sw1: "model_validate rec_sw1 = Inr cfg_sw1"
  by (simp add: rec_sw1_def cfg_sw1_def validate_defs)

lemma model_validate_rec_sw2_shared: "model_validate rec_sw2_shared = Inr cfg_sw2_shared"
  by (simp add: rec_sw2_shared_def cfg_sw2_shared_def validate_defs)

lemma valid_cfg_sw2_shared: "valid_config cfg_sw2_shared"
  by (simp add: cfg_sw2_shared_def valid_config_def valid_channel_def)

lemma main_loop_constructs:
  assumes "model_validate r = Inr cfg" "valid_config cfg"
    "bouncetime_error (debounce_ms cfg) = None" "events w (pin_button cfg) = None"
  shows "main_loop (r # rest) (switches, w) =
     main_loop rest (switches @ [fst (fst (L298NSwitch_init cfg w))],
                     snd (fst (L298NSwitch_init cfg w)))"
  using assms(1) by (simp add: init_valid [OF assms(2,3,4)])

lemma bounce_sw1: "bouncetime_error (debounce_ms cfg_sw1) = None"
  by (simp add: cfg_sw1_def bounce_200)

lemma bounce_sw2_shared: "bouncetime_error (debounce_ms cfg_sw2_shared) = None"
  by (simp add: cfg_sw2_shared_def bounce_200)

lemma sw1_idle_events_other: "p \<noteq> 23 \<Longrightarrow> events (snd sw1_idle) p = None"
  by (simp add: sw1_idle_def init_valid [OF valid_cfg_sw1 bounce_sw1 boot_events])
    (simp add: cfg_sw1_def boot_def)

lemma sw2_shared_button_free: "events (snd sw1_idle) (pin_button cfg_sw2_shared) = None"
  by (simp add: sw1_idle_events_other cfg_sw2_shared_def)

lemma shared_pin_run_eq:
  "shared_pin_run = (([fst sw1_idle, fst (fst (L298NSwitch_init cfg_sw2_shared (snd sw1_idle)))],
      snd (fst (L298NSwitch_init cfg_sw2_shared (snd sw1_idle)))), None)"
proof -
  have 1: "main_loop [rec_sw1, rec_sw2_shared] ([], boot)
      = main_loop [rec_sw2_shared] ([] @ [fst sw1_idle], snd sw1_idle)"
    unfolding sw1_idle_def
    by (rule main_loop_constructs [OF model_validate_rec_sw1 valid_cfg_sw1 bounce_sw1 boot_events])
  have 2: "main_loop [rec_sw2_shared] ([fst sw1_idle], snd sw1_idle)
      = main_loop [] ([fst sw1_idle] @ [fst (fst (L298NSwitch_init cfg_sw2_shared (snd sw1_idle)))],
          snd (fst (L298NSwitch_init cfg_sw2_shared (snd sw1_idle))))"
    by (rule main_loop_constructs [OF model_validate_rec_sw2_shared valid_cfg_sw2_shared
          bounce_sw2_shared sw2_shared_button_free])
  show ?thesis
    unfolding shared_pin_run_def
    by (simp only: 1 2 append.simps main_loop.simps(1))
qed

lemma sw1_idle_modes:
  "modes (snd sw1_idle) = (modes boot)(23 \<mapsto> GPIO_IN, 17 \<mapsto> GPIO_OUT, 22 \<mapsto> GPIO_OUT,
     27 \<mapsto> GPIO_OUT)"
  by (simp add: sw1_idle_def init_valid [OF valid_cfg_sw1 bounce_sw1 boot_events])
    (simp add: cfg_sw1_def)

lemma sw1_shared_world:
  "snd sw1_shared = snd (fst (L298NSwitch_init cfg_sw2_shared (snd sw1_idle)))"
  by (simp add: sw1_shared_def shared_pin_run_eq)

lemma sw1_shared_modes:
  "modes (snd sw1_shared) 17 = Some GPIO_OUT" "modes (snd sw1_shared) 27 = Some GPIO_IN"
  by (simp_all add: sw1_shared_world
      init_valid [OF valid_cfg_sw2_shared bounce_sw2_shared sw2_shared_button_free])
    (simp_all add: cfg_sw2_shared_def sw1_idle_modes)

lemma sw1_shared_events: "events (snd sw1_shared) 23 = Some (RISING, 200)"
proof -
  have "events (snd sw1_idle) 23 = Some (RISING, 200)"
    using idle_events [OF idle_sw1] by (simp add: sw1_idle_config) (simp add: cfg_sw1_def)
  then show ?thesis
    by (simp add: sw1_shared_world
        init_valid [OF valid_cfg_sw2_shared bounce_sw2_shared sw2_shared_button_free])
      (simp add: cfg_sw2_shared_def)
qed

lemma model_validate_rec_dup_name: "model_validate rec_dup_name = Inr cfg_dup_name"
  by (simp add: rec_dup_name_def cfg_dup_name_def validate_defs)

lemma model_validate_rec_no_debounce: "model_validate rec_no_debounce = Inr cfg_no_debounce"
  by (simp add: rec_no_debounce_def cfg_no_debounce_def rec_dup_name_def cfg_dup_name_def
      validate_defs)

lemma valid_cfg_dup_name: "valid_config cfg_dup_name"
  by (simp add: cfg_dup_name_def valid_config_def valid_channel_def)

lemma valid_cfg_no_debounce: "valid_config cfg_no_debounce"
  by (simp add: cfg_no_debounce_def cfg_dup_name_def valid_config_def valid_channel_def)

lemma bounce_dup_name: "bouncetime_error (debounce_ms cfg_dup_name) = None"
  by (simp add: cfg_dup_name_def bounce_200)

lemma dup_name_button_free: "events (snd sw1_idle) (pin_button cfg_dup_name) = None"
  by (simp add: sw1_idle_events_other cfg_dup_name_def)

lemma sw1_button_taken: "events (snd sw1_idle) (pin_button cfg_sw1) \<noteq> None"
  using idle_events [OF idle_sw1] by (simp add: sw1_idle_config)

lemma bouncetime_error_cases:
  "bouncetime_error d = None \<or> bouncetime_error d = Some OverflowError
   \<or> bouncetime_error d = Some (ValueError ''Bouncetime must be greater than 0'')"
  by (simp add: bouncetime_error_def)

lemma dup_name_run_eq:
  "dup_name_run = (([fst sw1_idle, fst (fst (L298NSwitch_init cfg_dup_name (snd sw1_idle)))],
      snd (fst (L298NSwitch_init cfg_dup_name (snd sw1_idle)))), None)"
proof -
  have 1: "main_loop [rec_sw1, rec_dup_name] ([], boot)
      = main_loop [rec_dup_name] ([] @ [fst sw1_idle], snd sw1_idle)"
    unfolding sw1_idle_def
    by (rule main_loop_constructs [OF model_validate_rec_sw1 valid_cfg_sw1 bounce_sw1 boot_events])
  have 2: "main_loop [rec_dup_name] ([fst sw1_idle], snd sw1_idle)
      = main_loop [] ([fst sw1_idle] @ [fst (fst (L298NSwitch_init cfg_dup_name (snd sw1_idle)))],
          snd (fst (L298NSwitch_init cfg_dup_name (snd sw1_idle))))"
    by (rule main_loop_constructs [OF model_validate_rec_dup_name valid_cfg_dup_name
          bounce_dup_name dup_name_button_free])
  show ?thesis
    unfolding dup_name_run_def
    by (simp only: 1 2 append.simps main_loop.simps(1))
qed

lemma sw_long_toggle:
  "toggle sw_long =
     ((fst sw_long\<lparr>state := Some 1\<rparr>,
       (snd sw_long)\<lparr>levels := (levels (snd sw_long))(17 \<mapsto> True, 27 \<mapsto> False, 22 \<mapsto> True),
          events := (events (snd sw_long))(23 := None),
          trace := trace (snd sw_long) @
            [Remove_event_detect 23, Log_debug ''sw1'' 1, Output 17 True, Output 27 False,
             Output 22 True]\<rparr>), Some OverflowError)"
proof -
  have v: "valid_config (config (fst sw_long))"
    by (simp add: sw_long_config valid_cfg_long)
  have r: "wired (fst sw_long, snd sw_long)"
    using idle_wired [OF idle_sw_long] by simp
  have "toggle (fst sw_long, snd sw_long) =
     ((fst sw_long\<lparr>state := Some 1\<rparr>,
       (snd sw_long)\<lparr>levels := (levels (snd sw_long))(17 \<mapsto> True, 27 \<mapsto> False, 22 \<mapsto> True),
          events := (events (snd sw_long))(23 := None),
          trace := trace (snd sw_long) @
            [Remove_event_detect 23, Log_debug ''sw1'' 1, Output 17 True, Output 27 False,
             Output 22 True]\<rparr>), Some OverflowError)"
    unfolding toggle_result [OF v r sw_long_state]
    by (simp add: sw_long_config sleep_long_overflow code_toggle_effects_def)
      (simp add: cfg_long_def cfg_sw1_def)
  then show ?thesis
    by simp
qed

lemma sw_long_edges:
  "accepted [Rise, Rise] sw_long = 1"
  "snd (button_edges [Rise, Rise] sw_long) = [OverflowError]"
proof -
  have a: "armed Rise sw_long"
    by (rule idle_armed_Rise [OF idle_sw_long])
  have b: "button_edge Rise sw_long = toggle sw_long"
    using a by (simp add: button_edge_def)
  define s1 where "s1 = fst (toggle sw_long)"
  have t: "toggle sw_long = (s1, Some OverflowError)"
    by (simp add: s1_def sw_long_toggle)
  have n: "\<not> armed sig s1" for sig
    by (simp add: s1_def sw_long_toggle armed_def sw_long_config) (simp add: cfg_long_def cfg_sw1_def)
  have c: "button_edge sig s1 = (s1, None)" for sig
    using n by (simp add: button_edge_def)
  show "accepted [Rise, Rise] sw_long = 1"
    using a n by (simp add: b t)
  show "snd (button_edges [Rise, Rise] sw_long) = [OverflowError]"
    by (simp add: b t c)
qed

lemma sw1_edges:
  "snd (button_edges sigs sw1_idle) = [] \<and> accepted sigs sw1_idle = count_list sigs Rise"
proof -
  have i: "idle (fst sw1_idle, snd sw1_idle)"
    using idle_sw1 by simp
  have z: "\<forall>t. sleep_error (strobe_ms (config (fst sw1_idle))) ((snd sw1_idle)\<lparr>trace := t\<rparr>) = None"
  proof
    fix t
    have "sleep_limit_ms ((snd sw1_idle)\<lparr>trace := t\<rparr>) = sleep_limit_ms boot"
      by (simp add: sw1_idle_clock)
    then show "sleep_error (strobe_ms (config (fst sw1_idle))) ((snd sw1_idle)\<lparr>trace := t\<rparr>) = None"
      by (rule sleep_boot_ok) (simp_all add: sw1_idle_config cfg_sw1_def)
  qed
  from edges_idle [OF i z, of sigs] show ?thesis
    by simp
qed

section \<open>The claims\<close>




text \<open>
  C2, on the code: an entry with \<^verbatim>\<open>event_edge: FALLING\<close> validates to a configuration
  whose \<^verbatim>\<open>event_edge\<close> is FALLING, yet the constructed switch has edge detection added
  for RISING: a falling edge on the button changes nothing and a rising edge toggles.
\<close>

theorem event_edge_ignored:
  "model_validate rec_falling = Inr cfg_falling
   \<and> event_edge cfg_falling = FALLING
   \<and> sw_falling = fst (L298NSwitch_init cfg_falling boot)
   \<and> snd (L298NSwitch_init cfg_falling boot) = None
   \<and> events (snd sw_falling) 23 = Some (RISING, 200)
   \<and> button_edge Fall sw_falling = (sw_falling, None)
   \<and> snd (button_edge Rise sw_falling) = None
   \<and> state (fst sw_falling) = Some 0
   \<and> state (fst (fst (button_edge Rise sw_falling))) = Some 1"
proof -
  have v: "valid_config cfg_falling"
    by (simp add: cfg_falling_def cfg_sw1_def valid_config_def valid_channel_def)
  have bt: "bouncetime_error (debounce_ms cfg_falling) = None"
    by (simp add: cfg_falling_def cfg_sw1_def bounce_200)
  have e: "events boot (pin_button cfg_falling) = None"
    by (rule boot_events)
  note iv = init_valid [OF v bt e]
  have mv: "model_validate rec_falling = Inr cfg_falling"
    by (simp add: rec_falling_def rec_sw1_def cfg_falling_def cfg_sw1_def validate_defs)
  have i: "idle sw_falling"
    by (rule idle_falling)
  have c: "config (fst sw_falling) = cfg_falling" and s: "state (fst sw_falling) = Some 0"
    by (simp_all add: sw_falling_def iv) (simp add: cfg_falling_def cfg_sw1_def)
  have ev: "events (snd sw_falling) 23 = Some (RISING, 200)"
    using idle_events [OF i] c by (simp add: cfg_falling_def cfg_sw1_def)
  have f: "button_edge Fall sw_falling = (sw_falling, None)"
    using idle_not_armed_Fall [OF i] by (simp add: button_edge_def)
  have i': "idle (fst sw_falling, snd sw_falling)"
    using i by simp
  have vf: "valid_config (config (fst sw_falling))"
    by (simp add: c v)
  have cl: "sleep_limit_ms (snd sw_falling) = sleep_limit_ms boot"
    by (simp add: sw_falling_def iv)
  have "sleep_limit_ms (snd (fst (toggle_upto 4 (fst sw_falling, snd sw_falling))))
      = sleep_limit_ms boot"
    using strobe_clock [OF vf idle_wired [OF i'] s] cl by simp
  then have z: "sleep_error (strobe_ms (config (fst sw_falling)))
      (snd (fst (toggle_upto 4 (fst sw_falling, snd sw_falling)))) = None"
    by (rule sleep_boot_ok) (simp_all add: c cfg_falling_def cfg_sw1_def)
  obtain w' where t: "toggle (fst sw_falling, snd sw_falling)
      = ((fst sw_falling\<lparr>state := Some (0 XOR 1)\<rparr>, w'), None)"
    using toggle_idle_ok [OF i' s z] by blast
  have r: "button_edge Rise sw_falling = ((fst sw_falling\<lparr>state := Some (0 XOR 1)\<rparr>, w'), None)"
    using idle_armed_Rise [OF i] t by (simp add: button_edge_def)
  have ee: "event_edge cfg_falling = FALLING"
    by (simp add: cfg_falling_def)
  have n: "snd (L298NSwitch_init cfg_falling boot) = None"
    by (simp add: iv)
  have r1: "snd (button_edge Rise sw_falling) = None"
    by (simp add: r)
  have r2: "state (fst (fst (button_edge Rise sw_falling))) = Some 1"
    by (simp add: r)
  from mv ee sw_falling_def n ev f r1 s r2 show ?thesis
    by (intro conjI)
qed

text \<open>
  C3, as stated: a failing pin write is logged, the driver is still disabled and the
  interrupt re-armed, and nothing propagates. With a second switch whose button pin is
  the first switch's turn pin, both are constructed; a button press on the first then
  raises at the write to the turn pin, with the enable line high and the interrupt
  disarmed, and that is where the handler stops.
\<close>

theorem failed_write_counterexample:
  "snd shared_pin_run = None
   \<and> map config (fst (fst shared_pin_run)) = [cfg_sw1, cfg_sw2_shared]
   \<and> fst sw1_shared = fst (fst shared_pin_run) ! 0
   \<and> snd sw1_shared = snd (fst shared_pin_run)
   \<and> armed Rise sw1_shared
   \<and> snd (button_edge Rise sw1_shared) = Some not_output
   \<and> levels (snd (fst (button_edge Rise sw1_shared))) 17 = Some True
   \<and> events (snd (fst (button_edge Rise sw1_shared))) 23 = None
   \<and> effects_since (snd sw1_shared) (snd (fst (button_edge Rise sw1_shared)))
      = [Remove_event_detect 23, Log_debug ''sw1'' 1, Output 17 True]"
proof -
  have n: "snd shared_pin_run = None"
    by (simp add: shared_pin_run_eq)
  have c: "map config (fst (fst shared_pin_run)) = [cfg_sw1, cfg_sw2_shared]"
    by (simp add: shared_pin_run_eq sw1_idle_config
        init_valid [OF valid_cfg_sw2_shared bounce_sw2_shared sw2_shared_button_free])
  have f: "fst sw1_shared = fst (fst shared_pin_run) ! 0"
    by (simp add: sw1_shared_def shared_pin_run_eq sw1_idle_def
        init_valid [OF valid_cfg_sw1 bounce_sw1 boot_events]) (simp add: cfg_sw1_def)
  have s: "snd sw1_shared = snd (fst shared_pin_run)"
    by (simp add: sw1_shared_def)
  have a: "armed Rise sw1_shared"
    using sw1_shared_events by (simp add: armed_def sw1_shared_def cfg_sw1_def)
  have v: "valid_config (config \<lparr>config = cfg_sw1, state = Some 0\<rparr>)"
    by (simp add: valid_cfg_sw1)
  have st: "state \<lparr>config = cfg_sw1, state = Some 0\<rparr> = Some 0"
    by simp
  have m1: "modes (snd sw1_shared) (pin_enable (config \<lparr>config = cfg_sw1, state = Some 0\<rparr>)) = Some GPIO_OUT"
    using sw1_shared_modes by (simp add: cfg_sw1_def)
  have m2: "modes (snd sw1_shared) (pin_turn (config \<lparr>config = cfg_sw1, state = Some 0\<rparr>)) \<noteq> Some GPIO_OUT"
    using sw1_shared_modes by (simp add: cfg_sw1_def)
  have t: "button_edge Rise sw1_shared = toggle (\<lparr>config = cfg_sw1, state = Some 0\<rparr>, snd sw1_shared)"
    using a by (simp add: button_edge_def) (simp add: sw1_shared_def)
  have x: "snd (button_edge Rise sw1_shared) = Some not_output"
    unfolding t toggle_turn_write_fails [OF v st m1 m2] by simp
  have l: "levels (snd (fst (button_edge Rise sw1_shared))) 17 = Some True"
    unfolding t toggle_turn_write_fails [OF v st m1 m2] by (simp add: cfg_sw1_def)
  have ev: "events (snd (fst (button_edge Rise sw1_shared))) 23 = None"
    unfolding t toggle_turn_write_fails [OF v st m1 m2] by (simp add: cfg_sw1_def)
  have ef: "effects_since (snd sw1_shared) (snd (fst (button_edge Rise sw1_shared)))
      = [Remove_event_detect 23, Log_debug ''sw1'' 1, Output 17 True]"
    unfolding t toggle_turn_write_fails [OF v st m1 m2]
    by (simp add: effects_since_def cfg_sw1_def)
  from n c f s a x l ev ef show ?thesis
    by (intro conjI)
qed

text \<open>
  C3, amended: when the enable pin or a direction pin is not set up as an output, the
  toggle raises the library's exception at the first such write and stops there. Its
  effects are exactly the statements before that write (disarm, the log of the new
  state, and the writes that succeeded): the failure is not logged and no later
  statement runs. The state is already flipped, the button interrupt stays disarmed,
  and the enable line is high when the write to it had succeeded and as it was
  otherwise.
\<close>

theorem failed_write_propagates:
  assumes "valid_config (config sw)"
    and "state sw = Some (SwitchPosition_value P)"
    and "\<not> (modes w (pin_enable (config sw)) = Some GPIO_OUT
          \<and> modes w (pin_turn (config sw)) = Some GPIO_OUT
          \<and> modes w (pin_straight (config sw)) = Some GPIO_OUT)"
  shows "\<exists>w'. toggle (sw, w)
          = ((sw\<lparr>state := Some (SwitchPosition_value (flip P))\<rparr>, w'), Some not_output)
      \<and> events w' (pin_button (config sw)) = None
      \<and> effects_since w w' =
          (if modes w (pin_enable (config sw)) \<noteq> Some GPIO_OUT then
             [Remove_event_detect (pin_button (config sw)),
              Log_debug (name (config sw)) (SwitchPosition_value (flip P))]
           else if modes w (pin_turn (config sw)) \<noteq> Some GPIO_OUT then
             [Remove_event_detect (pin_button (config sw)),
              Log_debug (name (config sw)) (SwitchPosition_value (flip P)),
              Output (pin_enable (config sw)) True]
           else
             [Remove_event_detect (pin_button (config sw)),
              Log_debug (name (config sw)) (SwitchPosition_value (flip P)),
              Output (pin_enable (config sw)) True,
              Output (pin_turn (config sw)) (\<not> SwitchPosition_value (flip P) \<noteq> 0)])
      \<and> levels w' (pin_enable (config sw)) =
          (if modes w (pin_enable (config sw)) = Some GPIO_OUT then Some True
           else levels w (pin_enable (config sw)))"
proof -
  from assms(1) have d: "pin_enable (config sw) \<noteq> pin_turn (config sw)"
    by (simp add: valid_config_def)
  consider (enable) "modes w (pin_enable (config sw)) \<noteq> Some GPIO_OUT"
    | (turn) "modes w (pin_enable (config sw)) = Some GPIO_OUT"
        "modes w (pin_turn (config sw)) \<noteq> Some GPIO_OUT"
    | (straight) "modes w (pin_enable (config sw)) = Some GPIO_OUT"
        "modes w (pin_turn (config sw)) = Some GPIO_OUT"
        "modes w (pin_straight (config sw)) \<noteq> Some GPIO_OUT"
    using assms(3) by blast
  then show ?thesis
  proof cases
    case enable
    show ?thesis
      unfolding toggle_enable_write_fails [OF assms(1,2) enable]
      using enable by (simp add: effects_since_def flip_value)
  next
    case turn
    show ?thesis
      unfolding toggle_turn_write_fails [OF assms(1,2) turn]
      using turn by (simp add: effects_since_def flip_value)
  next
    case straight
    show ?thesis
      unfolding toggle_straight_write_fails [OF assms(1,2) straight]
      using d straight by (simp add: effects_since_def flip_value)
  qed
qed

theorem failed_write_propagates_witness:
  "valid_config (config (fst sw1_shared))
   \<and> state (fst sw1_shared) = Some (SwitchPosition_value TURN)
   \<and> \<not> (modes (snd sw1_shared) (pin_enable (config (fst sw1_shared))) = Some GPIO_OUT
        \<and> modes (snd sw1_shared) (pin_turn (config (fst sw1_shared))) = Some GPIO_OUT
        \<and> modes (snd sw1_shared) (pin_straight (config (fst sw1_shared))) = Some GPIO_OUT)
   \<and> (\<exists>w'. toggle sw1_shared = ((fst sw1_shared\<lparr>state := Some 1\<rparr>, w'), Some not_output)
      \<and> events w' 23 = None
      \<and> effects_since (snd sw1_shared) w'
          = [Remove_event_detect 23, Log_debug ''sw1'' 1, Output 17 True]
      \<and> levels w' 17 = Some True)"
proof -
  have c: "config (fst sw1_shared) = cfg_sw1"
    and s: "state (fst sw1_shared) = Some (SwitchPosition_value TURN)"
    by (simp_all add: sw1_shared_def)
  have v: "valid_config (config (fst sw1_shared))"
    by (simp add: c valid_cfg_sw1)
  have p: "pin_button cfg_sw1 = 23" "pin_enable cfg_sw1 = 17" "pin_turn cfg_sw1 = 27"
    "name cfg_sw1 = ''sw1''"
    by (simp_all add: cfg_sw1_def)
  have m: "\<not> (modes (snd sw1_shared) (pin_enable (config (fst sw1_shared))) = Some GPIO_OUT
        \<and> modes (snd sw1_shared) (pin_turn (config (fst sw1_shared))) = Some GPIO_OUT
        \<and> modes (snd sw1_shared) (pin_straight (config (fst sw1_shared))) = Some GPIO_OUT)"
    using sw1_shared_modes by (simp add: c p)
  from failed_write_propagates [OF v s m] v s m sw1_shared_modes show ?thesis
    by (simp add: c p)
qed

text \<open>
  C4. For a switch in position \<open>P\<close> whose button pin is a channel of the board (edge
  detection is added on no other pin) and any sequence of button edges, the state
  afterwards is \<open>P\<close> when the number of accepted edges is even and \<open>flip P\<close> when it is
  odd, whether or not a toggle raises on the way.
\<close>

theorem toggles_alternate_position:
  "valid_channel (pin_button (config sw)) \<Longrightarrow> state sw = Some (SwitchPosition_value P) \<Longrightarrow>
   state (fst (fst (button_edges sigs (sw, w))))
     = Some (SwitchPosition_value (if even (accepted sigs (sw, w)) then P else flip P))"
proof (induction sigs arbitrary: sw w P)
  case Nil
  then show ?case by simp
next
  case (Cons sig sigs)
  show ?case
  proof (cases "armed sig (sw, w)")
    case True
    from toggle_flips [OF Cons.prems] obtain w1 r1 where
      t: "toggle (sw, w) = ((sw\<lparr>state := Some (SwitchPosition_value P XOR 1)\<rparr>, w1), r1)"
      by blast
    define sw1 where "sw1 = sw\<lparr>state := Some (SwitchPosition_value P XOR 1)\<rparr>"
    have b: "button_edge sig (sw, w) = ((sw1, w1), r1)"
      using True t by (simp add: button_edge_def sw1_def)
    have vc: "valid_channel (pin_button (config sw1))"
      using Cons.prems(1) by (simp add: sw1_def)
    have s: "state sw1 = Some (SwitchPosition_value (flip P))"
      by (simp add: sw1_def flip_value)
    note ih = Cons.IH [OF vc s, of w1]
    show ?thesis
    proof (cases r1)
      case None
      with ih b True show ?thesis
        by (simp add: flip_flip)
    next
      case (Some e)
      with ih b True show ?thesis
        by (cases "button_edges sigs (sw1, w1)") (auto simp: flip_flip)
    qed
  next
    case False
    then have b: "button_edge sig (sw, w) = ((sw, w), None)"
      by (simp add: button_edge_def)
    from Cons.IH [OF Cons.prems, of w] b False show ?thesis
      by simp
  qed
qed

theorem toggles_alternate_position_witness:
  "valid_channel (pin_button (config (fst sw1_idle)))
   \<and> state (fst sw1_idle) = Some (SwitchPosition_value TURN)
   \<and> accepted [Rise, Rise] sw1_idle = 2
   \<and> state (fst (fst (button_edges [Rise, Rise] sw1_idle))) = Some (SwitchPosition_value TURN)
   \<and> accepted [Rise, Fall, Rise, Rise] sw1_idle = 3
   \<and> state (fst (fst (button_edges [Rise, Fall, Rise, Rise] sw1_idle)))
        = Some (SwitchPosition_value STRAIGHT)
   \<and> valid_channel (pin_button (config (fst sw_long)))
   \<and> state (fst sw_long) = Some (SwitchPosition_value TURN)
   \<and> accepted [Rise, Rise] sw_long = 1
   \<and> snd (button_edges [Rise, Rise] sw_long) = [OverflowError]
   \<and> state (fst (fst (button_edges [Rise, Rise] sw_long)))
        = Some (SwitchPosition_value STRAIGHT)"
proof -
  have s: "state (fst sw1_idle) = Some (SwitchPosition_value TURN)"
    by (simp add: sw1_idle_state)
  have v: "valid_channel (pin_button (config (fst sw1_idle)))"
    by (simp add: sw1_idle_config cfg_sw1_def valid_channel_def)
  have n2: "accepted [Rise, Rise] sw1_idle = 2"
    using sw1_edges [of "[Rise, Rise]"] by (simp del: accepted.simps button_edges.simps)
  have n3: "accepted [Rise, Fall, Rise, Rise] sw1_idle = 3"
    using sw1_edges [of "[Rise, Fall, Rise, Rise]"]
    by (simp del: accepted.simps button_edges.simps)
  have a: "state (fst (fst (button_edges [Rise, Rise] sw1_idle))) = Some (SwitchPosition_value TURN)"
    using toggles_alternate_position [OF v s, of "[Rise, Rise]" "snd sw1_idle"]
    by (simp add: n2 del: accepted.simps button_edges.simps)
  have b: "state (fst (fst (button_edges [Rise, Fall, Rise, Rise] sw1_idle)))
        = Some (SwitchPosition_value STRAIGHT)"
    using toggles_alternate_position [OF v s, of "[Rise, Fall, Rise, Rise]" "snd sw1_idle"]
    by (simp add: n3 del: accepted.simps button_edges.simps)
  have s': "state (fst sw_long) = Some (SwitchPosition_value TURN)"
    by (simp add: sw_long_state)
  have v': "valid_channel (pin_button (config (fst sw_long)))"
    by (simp add: sw_long_config cfg_long_def cfg_sw1_def valid_channel_def)
  have c: "state (fst (fst (button_edges [Rise, Rise] sw_long)))
        = Some (SwitchPosition_value STRAIGHT)"
    using toggles_alternate_position [OF v' s', of "[Rise, Rise]" "snd sw_long"]
    by (simp add: sw_long_edges del: accepted.simps button_edges.simps)
  from v s n2 a n3 b v' s' sw_long_edges c show ?thesis
    by (simp del: accepted.simps button_edges.simps)
qed

text \<open>
  C5. For every valid configuration and every world, construction leaves a controller
  with that configuration whose state is the configuration's \<^verbatim>\<open>initial_state\<close>, the
  enable line is low afterwards, and the constructor never drives it high. The
  constructor returns exactly when the library takes the bounce time and no edge
  detection is on the button pin; otherwise it raises at its last statement, after the
  state and the pins are set.
\<close>

theorem construction_sets_initial_state:
  assumes "valid_config cfg"
  shows "\<exists>sw w' r. L298NSwitch_init cfg w = ((sw, w'), r)
      \<and> config sw = cfg
      \<and> state sw = Some (SwitchPosition_value (initial_state cfg))
      \<and> levels w' (pin_enable cfg) = Some False
      \<and> Output (pin_enable cfg) True \<notin> set (effects_since w w')
      \<and> (r = None \<longleftrightarrow>
          bouncetime_error (debounce_ms cfg) = None \<and> events w (pin_button cfg) = None)"
proof -
  from assms have d: "pin_enable cfg \<noteq> pin_turn cfg" "pin_enable cfg \<noteq> pin_straight cfg"
    by (simp_all add: valid_config_def)
  show ?thesis
  proof (cases "arm_error cfg w")
    case None
    then show ?thesis
      unfolding init_result [OF assms] using d arm_error_None [of cfg w]
      by (simp add: effects_since_def code_init_effects_def)
  next
    case (Some e)
    then show ?thesis
      unfolding init_result [OF assms] using d arm_error_None [of cfg w]
      by (simp add: effects_since_def code_init_effects_def)
  qed
qed

theorem construction_sets_initial_state_witness:
  "valid_config cfg_sw1
   \<and> (\<exists>sw w'. L298NSwitch_init cfg_sw1 boot = ((sw, w'), None)
      \<and> config sw = cfg_sw1
      \<and> state sw = Some 0
      \<and> levels w' 17 = Some False
      \<and> Output 17 True \<notin> set (effects_since boot w'))"
proof -
  have v: "valid_config cfg_sw1"
    by (simp add: cfg_sw1_def valid_config_def valid_channel_def)
  have b: "bouncetime_error (debounce_ms cfg_sw1) = None"
    by (simp add: bouncetime_error_def c_int_def cfg_sw1_def)
  have e: "events boot (pin_button cfg_sw1) = None"
    by (simp add: boot_def)
  have p: "pin_enable cfg_sw1 = 17" "SwitchPosition_value (initial_state cfg_sw1) = 0"
    by (simp_all add: cfg_sw1_def)
  from construction_sets_initial_state [OF v, of boot] obtain sw w' r where
    c: "L298NSwitch_init cfg_sw1 boot = ((sw, w'), r)"
      "config sw = cfg_sw1"
      "state sw = Some (SwitchPosition_value (initial_state cfg_sw1))"
      "levels w' (pin_enable cfg_sw1) = Some False"
      "Output (pin_enable cfg_sw1) True \<notin> set (effects_since boot w')"
      "r = None \<longleftrightarrow>
          bouncetime_error (debounce_ms cfg_sw1) = None \<and> events boot (pin_button cfg_sw1) = None"
    by blast
  from c(6) b e have "r = None"
    by simp
  with c v show ?thesis
    by (simp add: p)
qed

text \<open>
  C6. In a toggle from \<open>Idle\<close>, when the sleep begins (after four statements) no edge
  detection is on the button pin, so an edge of either kind then changes nothing. The
  toggle ends as the sleep, called then, does. When it returns: the sleep is the only
  effect between its begin and its end, at its end the button pin still has no edge
  detection, the rest of the toggle leaves the enable line low and the interrupt armed,
  and a further rising edge flips the state again.
\<close>

theorem no_toggle_during_strobe:
  assumes "idle (sw, w)" and "state sw = Some (SwitchPosition_value P)"
  shows "\<exists>mid.
      toggle_upto 4 (sw, w) = (mid, None)
    \<and> events (snd mid) (pin_button (config sw)) = None
    \<and> (\<forall>sig. button_edge sig mid = (mid, None))
    \<and> snd (toggle_upto 5 (sw, w)) = sleep_error (strobe_ms (config sw)) (snd mid)
    \<and> snd (toggle (sw, w)) = sleep_error (strobe_ms (config sw)) (snd mid)
    \<and> (snd (toggle (sw, w)) = None \<longrightarrow>
        (\<exists>woke fin again r.
            toggle_upto 5 (sw, w) = (woke, None)
          \<and> effects_since (snd mid) (snd woke) = [Sleep_ms (strobe_ms (config sw))]
          \<and> events (snd woke) (pin_button (config sw)) = None
          \<and> (\<forall>sig. button_edge sig woke = (woke, None))
          \<and> toggle (sw, w) = run (drop 5 toggle_steps) woke
          \<and> toggle (sw, w) = (fin, None)
          \<and> state (fst fin) = Some (SwitchPosition_value (flip P))
          \<and> levels (snd fin) (pin_enable (config sw)) = Some False
          \<and> events (snd fin) (pin_button (config sw)) = Some (RISING, debounce_ms (config sw))
          \<and> button_edge Rise fin = (again, r)
          \<and> state (fst again) = Some (SwitchPosition_value P)))"
proof -
  from assms(1) have v: "valid_config (config sw)" and r: "wired (sw, w)"
    and b: "bouncetime_error (debounce_ms (config sw)) = None"
    by (simp_all add: idle_def)
  from v have vb: "valid_channel (pin_button (config sw))"
    by (simp add: valid_config_def)
  define s' where "s' = sw\<lparr>state := Some (SwitchPosition_value P XOR 1)\<rparr>"
  have c: "config s' = config sw"
    and st: "state s' = Some (SwitchPosition_value (flip P))"
    by (simp_all add: s'_def flip_value)
  obtain wm where m: "toggle_upto 4 (sw, w) = ((s', wm), None)"
    and me: "events wm (pin_button (config sw)) = None"
    and mt: "trace wm = trace w @ take 5 (code_toggle_effects (config sw) (SwitchPosition_value P XOR 1))"
    by (simp add: toggle_upto_4 [OF v r assms(2)] s'_def)
  have dm: "button_edge sig (s', wm) = ((s', wm), None)" for sig
    using me c by (simp add: button_edge_disarmed)
  have e5: "snd (toggle_upto 5 (sw, w)) = sleep_error (strobe_ms (config sw)) wm"
    using m by (simp add: toggle_upto_5 [OF v r assms(2)] split: option.splits)
  have et: "snd (toggle (sw, w)) = sleep_error (strobe_ms (config sw)) wm"
    using m by (simp add: toggle_result [OF v r assms(2)] b split: option.splits)
  have rest: "\<exists>woke fin again r.
            toggle_upto 5 (sw, w) = (woke, None)
          \<and> effects_since wm (snd woke) = [Sleep_ms (strobe_ms (config sw))]
          \<and> events (snd woke) (pin_button (config sw)) = None
          \<and> (\<forall>sig. button_edge sig woke = (woke, None))
          \<and> toggle (sw, w) = run (drop 5 toggle_steps) woke
          \<and> toggle (sw, w) = (fin, None)
          \<and> state (fst fin) = Some (SwitchPosition_value (flip P))
          \<and> levels (snd fin) (pin_enable (config sw)) = Some False
          \<and> events (snd fin) (pin_button (config sw)) = Some (RISING, debounce_ms (config sw))
          \<and> button_edge Rise fin = (again, r)
          \<and> state (fst again) = Some (SwitchPosition_value P)"
    if ok: "snd (toggle (sw, w)) = None"
  proof -
    from ok et have z: "sleep_error (strobe_ms (config sw)) wm = None"
      by simp
    then have z': "sleep_error (strobe_ms (config sw)) (snd (fst (toggle_upto 4 (sw, w)))) = None"
      using m by simp
    obtain ww where k: "toggle_upto 5 (sw, w) = ((s', ww), None)"
      and ke: "events ww (pin_button (config sw)) = None"
      and kt: "trace ww = trace w @ take 6 (code_toggle_effects (config sw) (SwitchPosition_value P XOR 1))"
      by (simp add: toggle_upto_5 [OF v r assms(2)] z' s'_def)
    have sl: "effects_since wm ww = [Sleep_ms (strobe_ms (config sw))]"
      by (simp add: effects_since_def mt kt code_toggle_effects_def)
    have dk: "button_edge sig (s', ww) = ((s', ww), None)" for sig
      using ke c by (simp add: button_edge_disarmed)
    have sp: "toggle (sw, w) = run (drop 5 toggle_steps) (s', ww)"
      using toggle_split [of "(sw, w)" 5] k by simp
    obtain wf where f: "toggle (sw, w) = ((s', wf), None)"
      using ok by (simp add: toggle_result [OF v r assms(2)] z' b s'_def)
    have fi: "idle (s', wf)"
      using toggle_idle [OF assms(1) ok] f by simp
    from fi have fl: "levels wf (pin_enable (config sw)) = Some False"
      and fe: "events wf (pin_button (config sw)) = Some (RISING, debounce_ms (config sw))"
      using c by (simp_all add: idle_def)
    from toggle_flips [of s' "SwitchPosition_value (flip P)" wf] vb c st
    obtain wa ra where ag: "toggle (s', wf)
        = ((s'\<lparr>state := Some (SwitchPosition_value (flip P) XOR 1)\<rparr>, wa), ra)"
      by auto
    have be: "button_edge Rise (s', wf)
        = ((s'\<lparr>state := Some (SwitchPosition_value (flip P) XOR 1)\<rparr>, wa), ra)"
      using idle_armed_Rise [OF fi] ag by (simp add: button_edge_def)
    have ba: "state (fst (s'\<lparr>state := Some (SwitchPosition_value (flip P) XOR 1)\<rparr>, wa))
        = Some (SwitchPosition_value P)"
      using flip_value [of "flip P"] by (simp add: flip_flip)
    show ?thesis
      apply (rule exI [of _ "(s', ww)"])
      apply (rule exI [of _ "(s', wf)"])
      apply (rule exI [of _ "(s'\<lparr>state := Some (SwitchPosition_value (flip P) XOR 1)\<rparr>, wa)"])
      apply (rule exI [of _ ra])
      using k sl ke dk sp f st fl fe be ba apply simp
      done
  qed
  show ?thesis
    apply (rule exI [of _ "(s', wm)"])
    using m me dm e5 et rest apply simp
    done
qed

theorem no_toggle_during_strobe_witness:
  "idle sw1_idle \<and> state (fst sw1_idle) = Some (SwitchPosition_value TURN)
   \<and> (\<exists>mid.
      toggle_upto 4 sw1_idle = (mid, None)
    \<and> events (snd mid) 23 = None
    \<and> (\<forall>sig. button_edge sig mid = (mid, None))
    \<and> snd (toggle_upto 5 sw1_idle) = None
    \<and> snd (toggle sw1_idle) = None
    \<and> (\<exists>woke fin again r.
            toggle_upto 5 sw1_idle = (woke, None)
          \<and> effects_since (snd mid) (snd woke) = [Sleep_ms 500]
          \<and> events (snd woke) 23 = None
          \<and> (\<forall>sig. button_edge sig woke = (woke, None))
          \<and> toggle sw1_idle = run (drop 5 toggle_steps) woke
          \<and> toggle sw1_idle = (fin, None)
          \<and> state (fst fin) = Some 1
          \<and> levels (snd fin) 17 = Some False
          \<and> events (snd fin) 23 = Some (RISING, 200)
          \<and> button_edge Rise fin = (again, r)
          \<and> state (fst again) = Some 0))"
proof -
  have i: "idle (fst sw1_idle, snd sw1_idle)"
    using idle_sw1 by simp
  have s: "state (fst sw1_idle) = Some (SwitchPosition_value TURN)"
    by (simp add: sw1_idle_state)
  have z: "sleep_error (strobe_ms (config (fst sw1_idle))) (snd (fst (toggle_upto 4 sw1_idle))) = None"
    by (simp add: sw1_idle_config sleep_sw1_ok)
  have p: "pin_button cfg_sw1 = 23" "pin_enable cfg_sw1 = 17" "strobe_ms cfg_sw1 = 500"
    "debounce_ms cfg_sw1 = 200"
    by (simp_all add: cfg_sw1_def)
  have t: "\<exists>mid. toggle_upto 4 sw1_idle = (mid, None)
      \<and> events (snd mid) 23 = None
      \<and> (\<forall>sig. button_edge sig mid = (mid, None))
      \<and> snd (toggle_upto 5 sw1_idle) = sleep_error 500 (snd mid)
      \<and> snd (toggle sw1_idle) = sleep_error 500 (snd mid)
      \<and> (snd (toggle sw1_idle) = None \<longrightarrow> (\<exists>woke fin again r.
            toggle_upto 5 sw1_idle = (woke, None)
          \<and> effects_since (snd mid) (snd woke) = [Sleep_ms 500]
          \<and> events (snd woke) 23 = None
          \<and> (\<forall>sig. button_edge sig woke = (woke, None))
          \<and> toggle sw1_idle = run (drop 5 toggle_steps) woke
          \<and> toggle sw1_idle = (fin, None)
          \<and> state (fst fin) = Some 1
          \<and> levels (snd fin) 17 = Some False
          \<and> events (snd fin) 23 = Some (RISING, 200)
          \<and> button_edge Rise fin = (again, r)
          \<and> state (fst again) = Some 0))"
    using no_toggle_during_strobe [OF i s]
    by (simp add: sw1_idle_config p del: split_paired_Ex)
  from t obtain mid where all: "toggle_upto 4 sw1_idle = (mid, None)
      \<and> events (snd mid) 23 = None
      \<and> (\<forall>sig. button_edge sig mid = (mid, None))
      \<and> snd (toggle_upto 5 sw1_idle) = sleep_error 500 (snd mid)
      \<and> snd (toggle sw1_idle) = sleep_error 500 (snd mid)
      \<and> (snd (toggle sw1_idle) = None \<longrightarrow> (\<exists>woke fin again r.
            toggle_upto 5 sw1_idle = (woke, None)
          \<and> effects_since (snd mid) (snd woke) = [Sleep_ms 500]
          \<and> events (snd woke) 23 = None
          \<and> (\<forall>sig. button_edge sig woke = (woke, None))
          \<and> toggle sw1_idle = run (drop 5 toggle_steps) woke
          \<and> toggle sw1_idle = (fin, None)
          \<and> state (fst fin) = Some 1
          \<and> levels (snd fin) 17 = Some False
          \<and> events (snd fin) 23 = Some (RISING, 200)
          \<and> button_edge Rise fin = (again, r)
          \<and> state (fst again) = Some 0))"
    by (rule exE)
  from all have m0: "toggle_upto 4 sw1_idle = (mid, None)"
      "events (snd mid) 23 = None"
      "\<forall>sig. button_edge sig mid = (mid, None)"
      "snd (toggle_upto 5 sw1_idle) = sleep_error 500 (snd mid)"
      "snd (toggle sw1_idle) = sleep_error 500 (snd mid)"
    by simp_all
  from all have r0: "snd (toggle sw1_idle) = None \<longrightarrow> (\<exists>woke fin again r.
            toggle_upto 5 sw1_idle = (woke, None)
          \<and> effects_since (snd mid) (snd woke) = [Sleep_ms 500]
          \<and> events (snd woke) 23 = None
          \<and> (\<forall>sig. button_edge sig woke = (woke, None))
          \<and> toggle sw1_idle = run (drop 5 toggle_steps) woke
          \<and> toggle sw1_idle = (fin, None)
          \<and> state (fst fin) = Some 1
          \<and> levels (snd fin) 17 = Some False
          \<and> events (snd fin) 23 = Some (RISING, 200)
          \<and> button_edge Rise fin = (again, r)
          \<and> state (fst again) = Some 0)"
    by simp
  have z0: "sleep_error 500 (snd mid) = None"
    using z m0(1) by (simp add: sw1_idle_config p)
  have m: "toggle_upto 4 sw1_idle = (mid, None)"
      "events (snd mid) 23 = None"
      "\<forall>sig. button_edge sig mid = (mid, None)"
      "snd (toggle_upto 5 sw1_idle) = None"
      "snd (toggle sw1_idle) = None"
    using m0 z0 by simp_all
  from r0 m(5) have r: "\<exists>woke fin again r.
            toggle_upto 5 sw1_idle = (woke, None)
          \<and> effects_since (snd mid) (snd woke) = [Sleep_ms 500]
          \<and> events (snd woke) 23 = None
          \<and> (\<forall>sig. button_edge sig woke = (woke, None))
          \<and> toggle sw1_idle = run (drop 5 toggle_steps) woke
          \<and> toggle sw1_idle = (fin, None)
          \<and> state (fst fin) = Some 1
          \<and> levels (snd fin) 17 = Some False
          \<and> events (snd fin) 23 = Some (RISING, 200)
          \<and> button_edge Rise fin = (again, r)
          \<and> state (fst again) = Some 0"
    by simp
  have "idle sw1_idle"
    by (rule idle_sw1)
  with s m r show ?thesis
    by blast
qed

text \<open>
  C7. Whenever the direction pins are driven, the turn pin gets \<^verbatim>\<open>not state\<close> and the
  straight pin gets \<^verbatim>\<open>state\<close>: by \<^verbatim>\<open>__set_direction_pins\<close> itself, which leaves the
  enable line as it is; at construction, for the initial state and with the driver
  disabled, however the construction ends; and in a toggle from \<open>Idle\<close>, for the new
  state, when the fourth statement has run and however the toggle ends.
\<close>

theorem direction_pins_follow_position:
  "(valid_config (config sw) \<and> wired (sw, w) \<and> state sw = Some (SwitchPosition_value P)
    \<longrightarrow> (\<exists>w'. set_direction_pins (sw, w) = ((sw, w'), None)
          \<and> levels w' (pin_turn (config sw)) = Some (\<not> SwitchPosition_value P \<noteq> 0)
          \<and> levels w' (pin_straight (config sw)) = Some (SwitchPosition_value P \<noteq> 0)
          \<and> levels w' (pin_enable (config sw)) = levels w (pin_enable (config sw))))
   \<and> (valid_config cfg
    \<longrightarrow> (\<exists>sw' w' r. L298NSwitch_init cfg w0 = ((sw', w'), r)
          \<and> levels w' (pin_turn cfg) = Some (\<not> SwitchPosition_value (initial_state cfg) \<noteq> 0)
          \<and> levels w' (pin_straight cfg) = Some (SwitchPosition_value (initial_state cfg) \<noteq> 0)
          \<and> levels w' (pin_enable cfg) = Some False))
   \<and> (idle (sw, w) \<and> state sw = Some (SwitchPosition_value P)
    \<longrightarrow> (\<exists>sw' w'. toggle_upto 4 (sw, w) = ((sw', w'), None)
          \<and> state sw' = Some (SwitchPosition_value (flip P))
          \<and> levels w' (pin_turn (config sw)) = Some (\<not> SwitchPosition_value (flip P) \<noteq> 0)
          \<and> levels w' (pin_straight (config sw)) = Some (SwitchPosition_value (flip P) \<noteq> 0)
          \<and> levels (snd (fst (toggle (sw, w)))) (pin_turn (config sw))
              = Some (\<not> SwitchPosition_value (flip P) \<noteq> 0)
          \<and> levels (snd (fst (toggle (sw, w)))) (pin_straight (config sw))
              = Some (SwitchPosition_value (flip P) \<noteq> 0)))"
proof (intro conjI impI)
  assume a: "valid_config (config sw) \<and> wired (sw, w) \<and> state sw = Some (SwitchPosition_value P)"
  then have d: "distinct [pin_enable (config sw), pin_turn (config sw), pin_straight (config sw)]"
    by (simp add: valid_config_def)
  from a have v: "valid_config (config sw)" and r: "wired (sw, w)"
    and s: "state sw = Some (SwitchPosition_value P)"
    by simp_all
  show "\<exists>w'. set_direction_pins (sw, w) = ((sw, w'), None)
          \<and> levels w' (pin_turn (config sw)) = Some (\<not> SwitchPosition_value P \<noteq> 0)
          \<and> levels w' (pin_straight (config sw)) = Some (SwitchPosition_value P \<noteq> 0)
          \<and> levels w' (pin_enable (config sw)) = levels w (pin_enable (config sw))"
    unfolding set_direction_pins_wired [OF v r s] using d by simp
next
  assume v: "valid_config cfg"
  then have d: "distinct [pin_enable cfg, pin_turn cfg, pin_straight cfg]"
    by (simp add: valid_config_def)
  show "\<exists>sw' w' r. L298NSwitch_init cfg w0 = ((sw', w'), r)
          \<and> levels w' (pin_turn cfg) = Some (\<not> SwitchPosition_value (initial_state cfg) \<noteq> 0)
          \<and> levels w' (pin_straight cfg) = Some (SwitchPosition_value (initial_state cfg) \<noteq> 0)
          \<and> levels w' (pin_enable cfg) = Some False"
    unfolding init_result [OF v] using d by (simp split: option.splits)
next
  assume a: "idle (sw, w) \<and> state sw = Some (SwitchPosition_value P)"
  then have v: "valid_config (config sw)" and r: "wired (sw, w)"
    and s: "state sw = Some (SwitchPosition_value P)"
    by (simp_all add: idle_def)
  from v have d: "distinct [pin_enable (config sw), pin_turn (config sw), pin_straight (config sw)]"
    by (simp add: valid_config_def)
  show "\<exists>sw' w'. toggle_upto 4 (sw, w) = ((sw', w'), None)
          \<and> state sw' = Some (SwitchPosition_value (flip P))
          \<and> levels w' (pin_turn (config sw)) = Some (\<not> SwitchPosition_value (flip P) \<noteq> 0)
          \<and> levels w' (pin_straight (config sw)) = Some (SwitchPosition_value (flip P) \<noteq> 0)
          \<and> levels (snd (fst (toggle (sw, w)))) (pin_turn (config sw))
              = Some (\<not> SwitchPosition_value (flip P) \<noteq> 0)
          \<and> levels (snd (fst (toggle (sw, w)))) (pin_straight (config sw))
              = Some (SwitchPosition_value (flip P) \<noteq> 0)"
    unfolding toggle_upto_4 [OF v r s] toggle_levels [OF v r s] using d
    by (simp add: flip_value)
qed

theorem direction_pins_follow_position_witness:
  "(\<exists>w'. set_direction_pins sw1_idle = ((fst sw1_idle, w'), None)
      \<and> levels w' 27 = Some True \<and> levels w' 22 = Some False
      \<and> levels w' 17 = levels (snd sw1_idle) 17)
   \<and> (\<exists>sw' w' r. L298NSwitch_init cfg_sw1 boot = ((sw', w'), r)
      \<and> levels w' 27 = Some True \<and> levels w' 22 = Some False \<and> levels w' 17 = Some False)
   \<and> (\<exists>sw' w'. toggle_upto 4 sw1_idle = ((sw', w'), None)
      \<and> state sw' = Some 1
      \<and> levels w' 27 = Some False \<and> levels w' 22 = Some True
      \<and> levels (snd (fst (toggle sw1_idle))) 27 = Some False
      \<and> levels (snd (fst (toggle sw1_idle))) 22 = Some True)"
proof -
  have v: "valid_config cfg_sw1"
    by (simp add: cfg_sw1_def valid_config_def valid_channel_def)
  have i: "idle (fst sw1_idle, snd sw1_idle)"
    using idle_sw1 by simp
  then have r: "wired (fst sw1_idle, snd sw1_idle)"
    by (rule idle_wired)
  have s: "state (fst sw1_idle) = Some (SwitchPosition_value TURN)"
    by (simp add: sw1_idle_state)
  have p: "pin_turn cfg_sw1 = 27" "pin_straight cfg_sw1 = 22" "pin_enable cfg_sw1 = 17"
    "initial_state cfg_sw1 = TURN"
    by (simp_all add: cfg_sw1_def)
  from direction_pins_follow_position [of "fst sw1_idle" "snd sw1_idle" TURN cfg_sw1 boot] v i r s
  show ?thesis
    by (simp add: sw1_idle_config p)
qed

text \<open>
  C8, as stated: an entry with a name or a pin already in use is refused. The main loop
  constructs both switches of two entries with the same name, and both switches of two
  entries of which the second takes the first's turn pin as its button pin.
\<close>

theorem duplicates_registered_counterexample:
  "snd dup_name_run = None
   \<and> map config (fst (fst dup_name_run)) = [cfg_sw1, cfg_dup_name]
   \<and> name cfg_sw1 = name cfg_dup_name
   \<and> snd shared_pin_run = None
   \<and> map config (fst (fst shared_pin_run)) = [cfg_sw1, cfg_sw2_shared]
   \<and> pin_turn cfg_sw1 = pin_button cfg_sw2_shared"
proof -
  have 1: "snd dup_name_run = None"
    by (simp add: dup_name_run_eq)
  have 2: "map config (fst (fst dup_name_run)) = [cfg_sw1, cfg_dup_name]"
    by (simp add: dup_name_run_eq sw1_idle_config
        init_valid [OF valid_cfg_dup_name bounce_dup_name dup_name_button_free])
  have 3: "name cfg_sw1 = name cfg_dup_name"
    by (simp add: cfg_sw1_def cfg_dup_name_def)
  have 4: "snd shared_pin_run = None"
    by (simp add: shared_pin_run_eq)
  have 5: "map config (fst (fst shared_pin_run)) = [cfg_sw1, cfg_sw2_shared]"
    by (simp add: shared_pin_run_eq sw1_idle_config
        init_valid [OF valid_cfg_sw2_shared bounce_sw2_shared sw2_shared_button_free])
  have 6: "pin_turn cfg_sw1 = pin_button cfg_sw2_shared"
    by (simp add: cfg_sw1_def cfg_sw2_shared_def)
  from 1 2 3 4 5 6 show ?thesis
    by (intro conjI)
qed

text \<open>
  C8, amended: the main loop compares neither names nor pins. For a validated entry
  with a valid configuration, whatever switches came before and whatever entries
  follow: when the library takes the bounce time and no edge detection is on the button
  pin, the switch is constructed and appended and the loop goes on with the next entry;
  otherwise the constructor raises at its last statement (the library's exception for
  the bounce time, or else its conflicting-edge exception), after the state is logged
  and the four pins are set up and driven, and the loop ends there with no switch
  appended and no later entry read.
\<close>

theorem registration_checks_no_duplicates:
  assumes "model_validate r = Inr cfg" and "valid_config cfg"
  shows "(bouncetime_error (debounce_ms cfg) = None \<and> events w (pin_button cfg) = None \<longrightarrow>
      (\<exists>sw w'. L298NSwitch_init cfg w = ((sw, w'), None)
        \<and> config sw = cfg
        \<and> main_loop (r # rest) (switches, w) = main_loop rest (switches @ [sw], w')))
    \<and> (bouncetime_error (debounce_ms cfg) \<noteq> None \<or> events w (pin_button cfg) \<noteq> None \<longrightarrow>
      (\<exists>w'. main_loop (r # rest) (switches, w) =
          ((switches, w'),
           (case bouncetime_error (debounce_ms cfg) of
              Some e \<Rightarrow> Some e
            | None \<Rightarrow> Some conflicting_edge))
        \<and> effects_since w w' =
           [Log_debug (name cfg) (SwitchPosition_value (initial_state cfg)),
            Setup (pin_button cfg) GPIO_IN,
            Setup (pin_enable cfg) GPIO_OUT,
            Setup (pin_straight cfg) GPIO_OUT,
            Setup (pin_turn cfg) GPIO_OUT,
            Output (pin_enable cfg) False,
            Output (pin_turn cfg) (\<not> SwitchPosition_value (initial_state cfg) \<noteq> 0),
            Output (pin_straight cfg) (SwitchPosition_value (initial_state cfg) \<noteq> 0)]
        \<and> events w' = events w))
    \<and> (bouncetime_error (debounce_ms cfg) = None
        \<or> bouncetime_error (debounce_ms cfg) = Some OverflowError
        \<or> bouncetime_error (debounce_ms cfg)
             = Some (ValueError ''Bouncetime must be greater than 0''))"
proof (intro conjI impI)
  assume "bouncetime_error (debounce_ms cfg) = None \<and> events w (pin_button cfg) = None"
  then have a: "arm_error cfg w = None"
    by (simp add: arm_error_None)
  show "\<exists>sw w'. L298NSwitch_init cfg w = ((sw, w'), None)
        \<and> config sw = cfg
        \<and> main_loop (r # rest) (switches, w) = main_loop rest (switches @ [sw], w')"
    using assms(1) a by (simp add: init_result [OF assms(2)])
next
  assume n: "bouncetime_error (debounce_ms cfg) \<noteq> None \<or> events w (pin_button cfg) \<noteq> None"
  then have "arm_error cfg w \<noteq> None"
    by (simp add: arm_error_None)
  then obtain e where a: "arm_error cfg w = Some e"
    by auto
  have e: "(case bouncetime_error (debounce_ms cfg) of
              Some e \<Rightarrow> Some e
            | None \<Rightarrow> Some conflicting_edge) = Some e"
    using a n by (auto simp: arm_error_def split: option.splits if_splits)
  show "\<exists>w'. main_loop (r # rest) (switches, w) =
          ((switches, w'),
           (case bouncetime_error (debounce_ms cfg) of
              Some e \<Rightarrow> Some e
            | None \<Rightarrow> Some conflicting_edge))
        \<and> effects_since w w' =
           [Log_debug (name cfg) (SwitchPosition_value (initial_state cfg)),
            Setup (pin_button cfg) GPIO_IN,
            Setup (pin_enable cfg) GPIO_OUT,
            Setup (pin_straight cfg) GPIO_OUT,
            Setup (pin_turn cfg) GPIO_OUT,
            Output (pin_enable cfg) False,
            Output (pin_turn cfg) (\<not> SwitchPosition_value (initial_state cfg) \<noteq> 0),
            Output (pin_straight cfg) (SwitchPosition_value (initial_state cfg) \<noteq> 0)]
        \<and> events w' = events w"
    unfolding e using assms(1) a
    by (simp add: init_result [OF assms(2)] effects_since_def code_init_effects_def)
next
  show "bouncetime_error (debounce_ms cfg) = None
        \<or> bouncetime_error (debounce_ms cfg) = Some OverflowError
        \<or> bouncetime_error (debounce_ms cfg)
             = Some (ValueError ''Bouncetime must be greater than 0'')"
    by (rule bouncetime_error_cases)
qed

theorem registration_checks_no_duplicates_witness:
  "model_validate rec_dup_name = Inr cfg_dup_name \<and> valid_config cfg_dup_name
   \<and> name cfg_dup_name = name (config (fst sw1_idle))
   \<and> bouncetime_error (debounce_ms cfg_dup_name) = None
   \<and> events (snd sw1_idle) (pin_button cfg_dup_name) = None
   \<and> (\<exists>sw w'. main_loop [rec_dup_name] ([fst sw1_idle], snd sw1_idle)
          = (([fst sw1_idle, sw], w'), None) \<and> config sw = cfg_dup_name)
   \<and> model_validate rec_sw1 = Inr cfg_sw1 \<and> valid_config cfg_sw1
   \<and> events (snd sw1_idle) (pin_button cfg_sw1) \<noteq> None
   \<and> (\<exists>w'. main_loop [rec_sw1, rec_dup_name] ([fst sw1_idle], snd sw1_idle)
          = (([fst sw1_idle], w'), Some conflicting_edge)
        \<and> effects_since (snd sw1_idle) w' =
            [Log_debug ''sw1'' 0, Setup 23 GPIO_IN, Setup 17 GPIO_OUT, Setup 22 GPIO_OUT,
             Setup 27 GPIO_OUT, Output 17 False, Output 27 True, Output 22 False])
   \<and> model_validate rec_no_debounce = Inr cfg_no_debounce \<and> valid_config cfg_no_debounce
   \<and> bouncetime_error (debounce_ms cfg_no_debounce) \<noteq> None
   \<and> (\<exists>w'. main_loop [rec_no_debounce, rec_dup_name] ([], boot)
          = (([], w'), Some (ValueError ''Bouncetime must be greater than 0''))
        \<and> effects_since boot w' =
            [Log_debug ''sw1'' 1, Setup 26 GPIO_IN, Setup 5 GPIO_OUT, Setup 13 GPIO_OUT,
             Setup 6 GPIO_OUT, Output 5 False, Output 6 False, Output 13 True])"
proof -
  have n: "name cfg_dup_name = name (config (fst sw1_idle))"
    by (simp add: sw1_idle_config) (simp add: cfg_dup_name_def cfg_sw1_def)
  have bz: "bouncetime_error (debounce_ms cfg_no_debounce)
      = Some (ValueError ''Bouncetime must be greater than 0'')"
    by (simp add: cfg_no_debounce_def bouncetime_error_def c_int_def)
  have 1: "\<exists>sw w'. main_loop [rec_dup_name] ([fst sw1_idle], snd sw1_idle)
          = (([fst sw1_idle, sw], w'), None) \<and> config sw = cfg_dup_name"
    using registration_checks_no_duplicates
      [OF model_validate_rec_dup_name valid_cfg_dup_name, of "snd sw1_idle" "[]" "[fst sw1_idle]"]
      bounce_dup_name dup_name_button_free
    by (simp del: main_loop.simps(2)) blast
  have 2: "\<exists>w'. main_loop [rec_sw1, rec_dup_name] ([fst sw1_idle], snd sw1_idle)
          = (([fst sw1_idle], w'), Some conflicting_edge)
        \<and> effects_since (snd sw1_idle) w' =
            [Log_debug ''sw1'' 0, Setup 23 GPIO_IN, Setup 17 GPIO_OUT, Setup 22 GPIO_OUT,
             Setup 27 GPIO_OUT, Output 17 False, Output 27 True, Output 22 False]"
    using registration_checks_no_duplicates
      [OF model_validate_rec_sw1 valid_cfg_sw1, of "snd sw1_idle" "[rec_dup_name]" "[fst sw1_idle]"]
      bounce_sw1 sw1_button_taken
    by (simp del: main_loop.simps(2)) (simp add: cfg_sw1_def, blast)
  have 3: "\<exists>w'. main_loop [rec_no_debounce, rec_dup_name] ([], boot)
          = (([], w'), Some (ValueError ''Bouncetime must be greater than 0''))
        \<and> effects_since boot w' =
            [Log_debug ''sw1'' 1, Setup 26 GPIO_IN, Setup 5 GPIO_OUT, Setup 13 GPIO_OUT,
             Setup 6 GPIO_OUT, Output 5 False, Output 6 False, Output 13 True]"
    using registration_checks_no_duplicates
      [OF model_validate_rec_no_debounce valid_cfg_no_debounce, of boot "[rec_dup_name]" "[]"]
      bz
    by (simp del: main_loop.simps(2)) (simp add: cfg_no_debounce_def cfg_dup_name_def, blast)
  from model_validate_rec_dup_name valid_cfg_dup_name n bounce_dup_name dup_name_button_free 1
    model_validate_rec_sw1 valid_cfg_sw1 sw1_button_taken 2
    model_validate_rec_no_debounce valid_cfg_no_debounce bz 3
  show ?thesis
    by (simp del: main_loop.simps(2))
qed

text \<open>
  C9. An entry whose \<^verbatim>\<open>initial_state\<close> or \<^verbatim>\<open>event_edge\<close> token is not a member name
  fails validation; the error has a line for that field whose message lists the member
  names; the main loop ends there, with no switch constructed for the entry.
\<close>

theorem invalid_enum_token_rejected:
  "(cfg_initial_state r = Some t
      \<and> t \<notin> TStr ` set (map SwitchPosition_name SwitchPosition_members)
    \<longrightarrow> (\<exists>errs. model_validate r = Inl (ValidationError errs)
          \<and> (''initial_state'', Value_error
                [Lit ''Error validating switch position '', Key t,
                 Lit ''. Valid switch positions are: '', Names [''TURN'', ''STRAIGHT'']]) \<in> set errs
          \<and> main_loop (r # rest) (switches, w) = ((switches, w), Some (ValidationError errs))))
   \<and> (cfg_event_edge r = Some t
      \<and> t \<notin> TStr ` set (map EventEdge_name EventEdge_members)
    \<longrightarrow> (\<exists>errs. model_validate r = Inl (ValidationError errs)
          \<and> (''event_edge'', Value_error
                [Lit ''Error validating event edge '', Key t,
                 Lit ''. Valid event edges are: '', Names [''FALLING'', ''RISING'', ''BOTH'']]) \<in> set errs
          \<and> main_loop (r # rest) (switches, w) = ((switches, w), Some (ValidationError errs))))"
proof (intro conjI impI)
  assume a: "cfg_initial_state r = Some t
      \<and> t \<notin> TStr ` set (map SwitchPosition_name SwitchPosition_members)"
  then have "SwitchPosition_getitem t = None"
    by (simp add: SwitchPosition_getitem_None)
  with a have m: "(''initial_state'', Value_error
          [Lit ''Error validating switch position '', Key t,
           Lit ''. Valid switch positions are: '', Names [''TURN'', ''STRAIGHT'']])
         \<in> set (validation_errors r)"
    by (simp add: initial_state_error)
  then have "validation_errors r \<noteq> []"
    by auto
  then have v: "model_validate r = Inl (ValidationError (validation_errors r))"
    by (rule model_validate_Inl)
  then have "main_loop (r # rest) (switches, w)
      = ((switches, w), Some (ValidationError (validation_errors r)))"
    by (rule main_loop_invalid)
  with m v show "\<exists>errs. model_validate r = Inl (ValidationError errs)
          \<and> (''initial_state'', Value_error
                [Lit ''Error validating switch position '', Key t,
                 Lit ''. Valid switch positions are: '', Names [''TURN'', ''STRAIGHT'']]) \<in> set errs
          \<and> main_loop (r # rest) (switches, w) = ((switches, w), Some (ValidationError errs))"
    by blast
next
  assume a: "cfg_event_edge r = Some t
      \<and> t \<notin> TStr ` set (map EventEdge_name EventEdge_members)"
  then have "EventEdge_getitem t = None"
    by (simp add: EventEdge_getitem_None)
  with a have m: "(''event_edge'', Value_error
          [Lit ''Error validating event edge '', Key t,
           Lit ''. Valid event edges are: '', Names [''FALLING'', ''RISING'', ''BOTH'']])
         \<in> set (validation_errors r)"
    by (simp add: event_edge_error)
  then have "validation_errors r \<noteq> []"
    by auto
  then have v: "model_validate r = Inl (ValidationError (validation_errors r))"
    by (rule model_validate_Inl)
  then have "main_loop (r # rest) (switches, w)
      = ((switches, w), Some (ValidationError (validation_errors r)))"
    by (rule main_loop_invalid)
  with m v show "\<exists>errs. model_validate r = Inl (ValidationError errs)
          \<and> (''event_edge'', Value_error
                [Lit ''Error validating event edge '', Key t,
                 Lit ''. Valid event edges are: '', Names [''FALLING'', ''RISING'', ''BOTH'']]) \<in> set errs
          \<and> main_loop (r # rest) (switches, w) = ((switches, w), Some (ValidationError errs))"
    by blast
qed

theorem invalid_enum_token_rejected_witness:
  "(\<exists>errs. model_validate rec_bad_tokens = Inl (ValidationError errs)
        \<and> (''initial_state'', Value_error
              [Lit ''Error validating switch position '', Key (TStr ''Turn''),
               Lit ''. Valid switch positions are: '', Names [''TURN'', ''STRAIGHT'']]) \<in> set errs
        \<and> main_loop [rec_bad_tokens] ([], boot) = (([], boot), Some (ValidationError errs)))
   \<and> (\<exists>errs. model_validate rec_bad_tokens = Inl (ValidationError errs)
        \<and> (''event_edge'', Value_error
              [Lit ''Error validating event edge '', Key (TStr ''Rising''),
               Lit ''. Valid event edges are: '', Names [''FALLING'', ''RISING'', ''BOTH'']]) \<in> set errs
        \<and> main_loop [rec_bad_tokens] ([], boot) = (([], boot), Some (ValidationError errs)))"
proof -
  have h1: "cfg_initial_state rec_bad_tokens = Some (TStr ''Turn'')
      \<and> TStr ''Turn'' \<notin> TStr ` set (map SwitchPosition_name SwitchPosition_members)"
    by (simp add: rec_bad_tokens_def SwitchPosition_members_def)
  have h2: "cfg_event_edge rec_bad_tokens = Some (TStr ''Rising'')
      \<and> TStr ''Rising'' \<notin> TStr ` set (map EventEdge_name EventEdge_members)"
    by (simp add: rec_bad_tokens_def EventEdge_members_def)
  from invalid_enum_token_rejected [of rec_bad_tokens "TStr ''Turn''" "[]" "[]" boot] h1
    invalid_enum_token_rejected [of rec_bad_tokens "TStr ''Rising''" "[]" "[]" boot] h2
  show ?thesis by blast
qed

text \<open>
  C10. An entry that gives the name and the four pins validates, and each of
  \<^verbatim>\<open>initial_state\<close>, \<^verbatim>\<open>debounce_ms\<close>, \<^verbatim>\<open>event_edge\<close>, \<^verbatim>\<open>strobe_ms\<close> that it omits
  takes the default TURN, 200, RISING, 500; an entry that omits the name or a pin is
  rejected with a line \<^verbatim>\<open>missing\<close> for such a field.
\<close>

theorem optional_fields_default:
  "(cfg_name r = Some n \<and> cfg_pin_enable r = Some pe \<and> cfg_pin_turn r = Some pt
      \<and> cfg_pin_straight r = Some ps \<and> cfg_pin_button r = Some pb
      \<and> (\<forall>t. cfg_initial_state r = Some t \<longrightarrow> SwitchPosition_getitem t \<noteq> None)
      \<and> (\<forall>t. cfg_event_edge r = Some t \<longrightarrow> EventEdge_getitem t \<noteq> None)
    \<longrightarrow> (\<exists>cfg. model_validate r = Inr cfg
          \<and> name cfg = n \<and> pin_enable cfg = pe \<and> pin_turn cfg = pt
          \<and> pin_straight cfg = ps \<and> pin_button cfg = pb
          \<and> (cfg_initial_state r = None \<longrightarrow> initial_state cfg = TURN)
          \<and> (cfg_debounce_ms r = None \<longrightarrow> debounce_ms cfg = 200)
          \<and> (cfg_event_edge r = None \<longrightarrow> event_edge cfg = RISING)
          \<and> (cfg_strobe_ms r = None \<longrightarrow> strobe_ms cfg = 500)))
   \<and> (cfg_name r = None \<or> cfg_pin_enable r = None \<or> cfg_pin_turn r = None
      \<or> cfg_pin_straight r = None \<or> cfg_pin_button r = None
    \<longrightarrow> (\<exists>errs. model_validate r = Inl (ValidationError errs)
          \<and> (\<exists>field \<in> {''name'', ''pin_enable'', ''pin_turn'', ''pin_straight'', ''pin_button''}.
                (field, Missing) \<in> set errs)))"
proof (intro conjI impI)
  assume a: "cfg_name r = Some n \<and> cfg_pin_enable r = Some pe \<and> cfg_pin_turn r = Some pt
      \<and> cfg_pin_straight r = Some ps \<and> cfg_pin_button r = Some pb
      \<and> (\<forall>t. cfg_initial_state r = Some t \<longrightarrow> SwitchPosition_getitem t \<noteq> None)
      \<and> (\<forall>t. cfg_event_edge r = Some t \<longrightarrow> EventEdge_getitem t \<noteq> None)"
  obtain s where s: "field_initial_state r = Inr s" "cfg_initial_state r = None \<longrightarrow> s = TURN"
    using a field_initial_state_Inr by blast
  obtain e where e: "field_event_edge r = Inr e" "cfg_event_edge r = None \<longrightarrow> e = RISING"
    using a field_event_edge_Inr by blast
  have "model_validate r = Inr \<lparr>initial_state = s,
      debounce_ms = (case cfg_debounce_ms r of None \<Rightarrow> 200 | Some d \<Rightarrow> d), event_edge = e,
      strobe_ms = (case cfg_strobe_ms r of None \<Rightarrow> 500 | Some t \<Rightarrow> t),
      name = n, pin_enable = pe, pin_turn = pt, pin_straight = ps, pin_button = pb\<rparr>"
    using a s(1) e(1) field_debounce_ms_Inr field_strobe_ms_Inr
    by (intro model_validate_Inr) simp_all
  with s(2) e(2)
  show "\<exists>cfg. model_validate r = Inr cfg
          \<and> name cfg = n \<and> pin_enable cfg = pe \<and> pin_turn cfg = pt
          \<and> pin_straight cfg = ps \<and> pin_button cfg = pb
          \<and> (cfg_initial_state r = None \<longrightarrow> initial_state cfg = TURN)
          \<and> (cfg_debounce_ms r = None \<longrightarrow> debounce_ms cfg = 200)
          \<and> (cfg_event_edge r = None \<longrightarrow> event_edge cfg = RISING)
          \<and> (cfg_strobe_ms r = None \<longrightarrow> strobe_ms cfg = 500)"
    by simp
next
  assume a: "cfg_name r = None \<or> cfg_pin_enable r = None \<or> cfg_pin_turn r = None
      \<or> cfg_pin_straight r = None \<or> cfg_pin_button r = None"
  then have m: "\<exists>field \<in> {''name'', ''pin_enable'', ''pin_turn'', ''pin_straight'', ''pin_button''}.
      (field, Missing) \<in> set (validation_errors r)"
    by (rule missing_required)
  then have "validation_errors r \<noteq> []"
    by auto
  then have "model_validate r = Inl (ValidationError (validation_errors r))"
    by (rule model_validate_Inl)
  with m show "\<exists>errs. model_validate r = Inl (ValidationError errs)
          \<and> (\<exists>field \<in> {''name'', ''pin_enable'', ''pin_turn'', ''pin_straight'', ''pin_button''}.
                (field, Missing) \<in> set errs)"
    by blast
qed

theorem optional_fields_default_witness:
  "(\<exists>cfg. model_validate rec_minimal = Inr cfg
      \<and> name cfg = ''sw1'' \<and> pin_enable cfg = 17 \<and> pin_turn cfg = 27
      \<and> pin_straight cfg = 22 \<and> pin_button cfg = 23
      \<and> initial_state cfg = TURN \<and> debounce_ms cfg = 200
      \<and> event_edge cfg = RISING \<and> strobe_ms cfg = 500)
   \<and> (\<exists>errs. model_validate (rec_minimal\<lparr>cfg_pin_turn := None\<rparr>) = Inl (ValidationError errs)
        \<and> (\<exists>field \<in> {''name'', ''pin_enable'', ''pin_turn'', ''pin_straight'', ''pin_button''}.
              (field, Missing) \<in> set errs))"
  using optional_fields_default [of rec_minimal "''sw1''" 17 27 22 23]
    optional_fields_default [of "rec_minimal\<lparr>cfg_pin_turn := None\<rparr>"]
  by (simp add: rec_minimal_def)

end
